theory Spec2Isabelle
  imports Complex_Main "HOL-Library.AList" "HOL-Library.Word"
begin

section \<open>Go values\<close>

text \<open>
  The rate helper of the daemon server works on three kinds of numbers.
  \<^item> \<open>int64\<close> Unix seconds (bucket timestamps, the truncated wall clock, the lookback):
    64-bit words. The subtraction wraps around, as Go's does; \<open>sint\<close> reads a word as the
    signed number that Go compares and converts to \<open>float64\<close>.
  \<^item> \<open>int\<close> slice indices and lengths, with \<open>IndexNotFound = -1\<close>: modelled as \<open>int\<close>.
  \<^item> \<open>float64\<close> message counts and rates: modelled as \<open>real\<close>, that is, without
    rounding. A \<open>float64\<close> division by zero does not panic in Go, it yields an infinity
    or NaN, for which \<open>real\<close> has no value: the model returns the fault \<open>ZeroDivisor\<close>
    there, so that a result \<open>Inr r\<close> says that the divisor was not zero.
  An index outside a slice panics in Go: the fault \<open>IndexOutOfRange\<close>.
  The wall clock \<open>time.Now().Truncate(10s).Unix()\<close> is the parameter \<open>now\<close>.
  Logging is left out.
\<close>

type_synonym int64 = "64 word"
type_synonym float64 = real

datatype fault = IndexOutOfRange | ZeroDivisor

text \<open>\<open>s[i]\<close> on a slice.\<close>

definition index :: "'a list \<Rightarrow> int \<Rightarrow> fault + 'a" where
  "index s i = (if 0 \<le> i \<and> i < int (length s) then Inr (s ! nat i) else Inl IndexOutOfRange)"

text \<open>\<open>x / y\<close> on \<open>float64\<close>.\<close>

definition fdiv :: "float64 \<Rightarrow> float64 \<Rightarrow> fault + float64" where
  "fdiv x y = (if y = 0 then Inl ZeroDivisor else Inr (x / y))"

text \<open>
  A Go \<open>map[string]V\<close> is an association list; \<open>m[k] = v\<close> is \<open>AList.update k v m\<close>, which
  keeps the keys distinct, and a \<open>range\<close> loop visits the entries of the list. Reading
  \<open>m[k]\<close> at a missing key gives the zero value of \<open>V\<close>.
\<close>

type_synonym 'v gomap = "(string \<times> 'v) list"

definition lookup :: "'v gomap \<Rightarrow> 'v \<Rightarrow> string \<Rightarrow> 'v" where
  "lookup m zero k = (case map_of m k of None \<Rightarrow> zero | Some v \<Rightarrow> v)"

section \<open>The timestamped bucket\<close>

text \<open>
  Modelled from the spec: the type \<open>TimestampedCounts\<close>, its constructor and its methods
  \<open>Update\<close>, \<open>CloseWindow\<close>, \<open>IsWindowClosed\<close> and \<open>PodDeltaCountSnapshot\<close>, and the report
  type \<open>PodReadCount\<close>, are not among the source files; only their uses are. The
  definitions follow the spec's section on the timestamped bucket. Both maps are keyed
  by pod and then by partition, the shape in which \<open>calculatePartitionDelta\<close> reads the
  delta snapshot.
\<close>

record PodReadCount =
  podName :: string
  readCounts :: "float64 gomap"

record TimestampedCounts =
  timestamp :: int64
  podPartitionCount :: "float64 gomap gomap"
  windowClosed :: bool
  deltaSnapshot :: "float64 gomap gomap"

text \<open>Modelled from the spec: a bucket is created open, with nothing counted.\<close>

definition NewTimestampedCounts :: "int64 \<Rightarrow> TimestampedCounts" where
  "NewTimestampedCounts t =
     \<lparr>timestamp = t, podPartitionCount = [], windowClosed = False, deltaSnapshot = []\<rparr>"

text \<open>
  Modelled from the spec: \<open>Update\<close> merges the report into the counts, keyed by pod and
  partition; the latest cumulative count of a pod for a partition wins.
\<close>

definition Update :: "TimestampedCounts \<Rightarrow> PodReadCount \<Rightarrow> TimestampedCounts" where
  "Update tc report =
     tc\<lparr>podPartitionCount :=
          AList.update (podName report)
            (fold (\<lambda>(part, c) m. AList.update part c m) (readCounts report)
               (lookup (podPartitionCount tc) [] (podName report)))
            (podPartitionCount tc)\<rparr>"

text \<open>
  Modelled from the spec: the delta of one pod for one partition. Without a previous
  bucket the baseline is zero; a count below the previous one is a restarted pod, whose
  baseline is zero again, so that no delta is negative.
\<close>

definition podDelta :: "TimestampedCounts option \<Rightarrow> string \<Rightarrow> string \<Rightarrow> float64 \<Rightarrow> float64" where
  "podDelta previous pod part c =
     (case previous of
        None \<Rightarrow> c
      | Some prev \<Rightarrow>
          (let prevCount = lookup (lookup (podPartitionCount prev) [] pod) 0 part
           in if c < prevCount then c else c - prevCount))"

text \<open>
  Modelled from the spec: \<open>CloseWindow\<close> moves the bucket from open to closed once and
  computes the delta snapshot then; on a closed bucket it does nothing.
\<close>

definition CloseWindow :: "TimestampedCounts \<Rightarrow> TimestampedCounts option \<Rightarrow> TimestampedCounts" where
  "CloseWindow tc previous =
     (if windowClosed tc then tc
      else tc\<lparr>windowClosed := True,
              deltaSnapshot :=
                map (\<lambda>(pod, m). (pod, map (\<lambda>(part, c). (part, podDelta previous pod part c)) m))
                  (podPartitionCount tc)\<rparr>)"

definition IsWindowClosed :: "TimestampedCounts \<Rightarrow> bool" where
  "IsWindowClosed tc = windowClosed tc"

definition PodDeltaCountSnapshot :: "TimestampedCounts \<Rightarrow> float64 gomap gomap" where
  "PodDeltaCountSnapshot tc = deltaSnapshot tc"

section \<open>The bounded history\<close>

text \<open>
  Modelled from the spec: the generic \<open>OverflowQueue\<close> of the shared queue package is
  not among the source files. \<open>Append\<close> adds to the tail and drops the oldest item when
  the number of stored items exceeds the capacity; \<open>Items\<close> is the ordered snapshot.

  The queue of the rate helper holds pointers to buckets. \<open>UpdateCount\<close> is its only
  writer and appends a fresh bucket each time, so that no pointer is nil and no two
  entries are the same bucket: the queue is modelled as the list of the buckets
  themselves, and a method call on an entry replaces that entry.
\<close>

record 'a OverflowQueue =
  elems :: "'a list"
  capacity :: nat

definition Items :: "'a OverflowQueue \<Rightarrow> 'a list" where
  "Items q = elems q"

definition Append :: "'a OverflowQueue \<Rightarrow> 'a \<Rightarrow> 'a OverflowQueue" where
  "Append q x =
     (let stored = elems q @ [x]
      in q\<lparr>elems := (if length stored > capacity q then tl stored else stored)\<rparr>)"

section \<open>The rate helper\<close>

definition IndexNotFound :: int where
  "IndexNotFound = -1"

subsection \<open>UpdateCount\<close>

text \<open>
  The loop over the items: the first item with the given timestamp is updated and the
  function returns (\<open>Some\<close> of the items after the update); \<open>None\<close> when the loop ends
  without a match.
\<close>

fun updateMatching :: "TimestampedCounts list \<Rightarrow> int64 \<Rightarrow> PodReadCount \<Rightarrow> TimestampedCounts list option" where
  "updateMatching [] time partitionReadCounts = None"
| "updateMatching (i # rest) time partitionReadCounts =
     (if timestamp i = time then Some (Update i partitionReadCounts # rest)
      else map_option ((#) i) (updateMatching rest time partitionReadCounts))"

text \<open>The \<open>switch\<close> on the number of items: the window of the most recent item is closed.\<close>

definition closeMostRecent :: "TimestampedCounts list \<Rightarrow> TimestampedCounts list" where
  "closeMostRecent items =
     (let n = length items
      in if n = 0 then items
         else if n = 1 then items[0 := CloseWindow (items ! 0) None]
         else items[n - 1 := CloseWindow (items ! (n - 1)) (Some (items ! (n - 2)))])"

definition UpdateCount ::
  "TimestampedCounts OverflowQueue \<Rightarrow> int64 \<Rightarrow> PodReadCount \<Rightarrow> TimestampedCounts OverflowQueue" where
  "UpdateCount q time partitionReadCounts =
     (let items = Items q
      in case updateMatching items time partitionReadCounts of
           Some items' \<Rightarrow> q\<lparr>elems := items'\<rparr>
         | None \<Rightarrow>
             (let tc = Update (NewTimestampedCounts time) partitionReadCounts
              in Append (q\<lparr>elems := closeMostRecent items\<rparr>) tc))"

subsection \<open>CalculateRate\<close>

text \<open>The loop of \<open>calculatePartitionDelta\<close> over the pods of the delta snapshot.\<close>

fun sumPartition :: "float64 gomap gomap \<Rightarrow> string \<Rightarrow> float64 \<Rightarrow> float64" where
  "sumPartition [] partitionName delta = delta"
| "sumPartition ((pod, partitionCount) # rest) partitionName delta =
     sumPartition rest partitionName (delta + lookup partitionCount 0 partitionName)"

definition calculatePartitionDelta :: "TimestampedCounts \<Rightarrow> string \<Rightarrow> float64" where
  "calculatePartitionDelta c1 partitionName =
     (let tc1 = PodDeltaCountSnapshot c1 in sumPartition tc1 partitionName 0)"

text \<open>
  The backward loop of \<open>findStartIndex\<close>, \<open>for i := n - 2; i >= 0; i--\<close>, from the
  index \<open>i\<close> with the current \<open>startIndex\<close>.
\<close>

function startLoop :: "int64 \<Rightarrow> int64 \<Rightarrow> TimestampedCounts list \<Rightarrow> int \<Rightarrow> int \<Rightarrow> fault + int" where
  "startLoop now lookbackSeconds counts i startIndex =
     (if i \<ge> 0 then
        (case index counts i of
           Inl e \<Rightarrow> Inl e
         | Inr c \<Rightarrow>
             if sint (now - timestamp c) \<le> sint lookbackSeconds \<and> IsWindowClosed c
             then startLoop now lookbackSeconds counts (i - 1) i
             else Inr startIndex)
      else Inr startIndex)"
  by pat_completeness auto
termination
  by (relation "measure (\<lambda>(now, lookbackSeconds, counts, i, startIndex). nat (i + 1))") auto

definition findStartIndex :: "int64 \<Rightarrow> int64 \<Rightarrow> TimestampedCounts list \<Rightarrow> fault + int" where
  "findStartIndex now lookbackSeconds counts =
     (let n = int (length counts)
      in if n < 2 then Inr IndexNotFound
         else case index counts (n - 2) of
                Inl e \<Rightarrow> Inl e
              | Inr c \<Rightarrow>
                  if sint (now - timestamp c) > sint lookbackSeconds then Inr IndexNotFound
                  else startLoop now lookbackSeconds counts (n - 2) (n - 2))"

text \<open>The backward loop of \<open>findEndIndex\<close>, \<open>for i := len(counts) - 1; i >= 0; i--\<close>.\<close>

function endLoop :: "TimestampedCounts list \<Rightarrow> int \<Rightarrow> fault + int" where
  "endLoop counts i =
     (if i \<ge> 0 then
        (case index counts i of
           Inl e \<Rightarrow> Inl e
         | Inr c \<Rightarrow> if IsWindowClosed c then Inr i else endLoop counts (i - 1))
      else Inr IndexNotFound)"
  by pat_completeness auto
termination
  by (relation "measure (\<lambda>(counts, i). nat (i + 1))") auto

definition findEndIndex :: "TimestampedCounts list \<Rightarrow> fault + int" where
  "findEndIndex counts = endLoop counts (int (length counts) - 1)"

text \<open>
  The summation loop of \<open>CalculateRate\<close>, \<open>for i := startIndex; i < endIndex; i++\<close>.
  No entry is nil, so the test \<open>counts[i+1] != nil\<close> holds.
\<close>

function deltaLoop :: "TimestampedCounts list \<Rightarrow> string \<Rightarrow> int \<Rightarrow> int \<Rightarrow> float64 \<Rightarrow> fault + float64" where
  "deltaLoop counts partitionName i endIndex delta =
     (if i < endIndex then
        (case index counts (i + 1) of
           Inl e \<Rightarrow> Inl e
         | Inr c \<Rightarrow>
             deltaLoop counts partitionName (i + 1) endIndex
               (if IsWindowClosed c then delta + calculatePartitionDelta c partitionName else delta))
      else Inr delta)"
  by pat_completeness auto
termination
  by (relation "measure (\<lambda>(counts, partitionName, i, endIndex, delta). nat (endIndex - i))") auto

text \<open>The part of \<open>CalculateRate\<close> after both indices were found.\<close>

definition rateBetween ::
  "TimestampedCounts list \<Rightarrow> string \<Rightarrow> int \<Rightarrow> int \<Rightarrow> fault + float64" where
  "rateBetween counts partitionName startIndex endIndex =
     (case index counts endIndex of
        Inl e \<Rightarrow> Inl e
      | Inr ce \<Rightarrow>
          (case index counts startIndex of
             Inl e \<Rightarrow> Inl e
           | Inr cs \<Rightarrow>
               (let timeDiff = timestamp ce - timestamp cs
                in if timeDiff = 0 then Inr 0
                   else case deltaLoop counts partitionName startIndex endIndex 0 of
                          Inl e \<Rightarrow> Inl e
                        | Inr delta \<Rightarrow> fdiv delta (real_of_int (sint timeDiff)))))"

definition CalculateRate ::
  "int64 \<Rightarrow> TimestampedCounts OverflowQueue \<Rightarrow> int64 \<Rightarrow> string \<Rightarrow> string \<Rightarrow> fault + float64" where
  "CalculateRate now q lookbackSeconds partitionName vertexName =
     (let counts = Items q
      in if length counts \<le> 1 then Inr 0
         else case findStartIndex now lookbackSeconds counts of
                Inl e \<Rightarrow> Inl e
              | Inr startIndex \<Rightarrow>
                  (case findEndIndex counts of
                     Inl e \<Rightarrow> Inl e
                   | Inr endIndex \<Rightarrow>
                       if startIndex = IndexNotFound \<or> endIndex = IndexNotFound then Inr 0
                       else rateBetween counts partitionName startIndex endIndex))"

subsection \<open>Example histories\<close>

text \<open>
  The example of the spec: one pod reports the cumulative counts 5, 15 and 30 of partition
  \<open>p1\<close> at the timestamps 100, 110 and 120, into an empty history of capacity 100.
\<close>

definition exampleReport :: "float64 \<Rightarrow> PodReadCount" where
  "exampleReport c = \<lparr>podName = ''pod-0'', readCounts = [(''p1'', c)]\<rparr>"

definition exampleQueue :: "TimestampedCounts OverflowQueue" where
  "exampleQueue =
     UpdateCount (UpdateCount (UpdateCount \<lparr>elems = [], capacity = 100\<rparr> 100 (exampleReport 5))
       110 (exampleReport 15)) 120 (exampleReport 30)"

text \<open>The history after the first two reports of the example.\<close>

definition twoBuckets :: "TimestampedCounts OverflowQueue" where
  "twoBuckets = UpdateCount (UpdateCount \<lparr>elems = [], capacity = 100\<rparr> 100 (exampleReport 5)) 110 (exampleReport 15)"

text \<open>
  The same three reports with a first timestamp near the least \<open>int64\<close>, so that its
  distance from the later timestamps is more than the greatest \<open>int64\<close>.
\<close>

definition farPastQueue :: "TimestampedCounts OverflowQueue" where
  "farPastQueue =
     UpdateCount (UpdateCount (UpdateCount \<lparr>elems = [], capacity = 100\<rparr>
       (- 9223372036854775800) (exampleReport 5)) 110 (exampleReport 15)) 120 (exampleReport 30)"

text \<open>The same three reports with the first two timestamps near the least \<open>int64\<close>.\<close>

definition stalePairQueue :: "TimestampedCounts OverflowQueue" where
  "stalePairQueue =
     UpdateCount (UpdateCount (UpdateCount \<lparr>elems = [], capacity = 100\<rparr>
       (- 9223372036854775800) (exampleReport 5)) (- 9223372036854775790) (exampleReport 15))
       120 (exampleReport 30)"

text \<open>A history whose last two buckets are open, behind one closed bucket.\<close>

definition openTail :: "TimestampedCounts OverflowQueue" where
  "openTail =
     \<lparr>elems = [CloseWindow (NewTimestampedCounts 100) None, NewTimestampedCounts 110, NewTimestampedCounts 120],
      capacity = 100\<rparr>"

subsection \<open>The caller\<close>

text \<open>
  Modelled from the spec: the caller of \<open>UpdateCount\<close> is not among the source files. It
  delivers the reports to one history, one at a time, starting from the empty history;
  its contract is that the delivered timestamps do not decrease. \<open>ingest\<close> is the history
  after a list of deliveries.
\<close>

definition ingest ::
  "TimestampedCounts OverflowQueue \<Rightarrow> (int64 \<times> PodReadCount) list \<Rightarrow> TimestampedCounts OverflowQueue" where
  "ingest q deliveries = fold (\<lambda>(time, report) q'. UpdateCount q' time report) deliveries q"

section \<open>The loops\<close>

declare startLoop.simps [simp del] endLoop.simps [simp del] deltaLoop.simps [simp del]


lemma index_in_range: "0 \<le> i \<Longrightarrow> i < int (length s) \<Longrightarrow> index s i = Inr (s ! nat i)"
  by (simp add: index_def)

lemma sumPartition_sum_list:
  "sumPartition m partitionName delta = delta + sum_list (map (\<lambda>(pod, partitionCount). lookup partitionCount 0 partitionName) m)"
  by (induction m partitionName delta rule: sumPartition.induct) simp_all

lemma startLoop_spec:
  "i < int (length counts) \<Longrightarrow>
   \<exists>s. startLoop now lb counts i s0 = Inr s \<and>
     ((s = s0 \<and> (0 \<le> i \<longrightarrow> \<not> (sint (now - timestamp (counts ! nat i)) \<le> sint lb \<and> IsWindowClosed (counts ! nat i)))) \<or>
      (0 \<le> s \<and> s \<le> i \<and>
       (\<forall>j. s \<le> j \<and> j \<le> i \<longrightarrow> sint (now - timestamp (counts ! nat j)) \<le> sint lb \<and> IsWindowClosed (counts ! nat j)) \<and>
       (0 < s \<longrightarrow> \<not> (sint (now - timestamp (counts ! nat (s - 1))) \<le> sint lb \<and> IsWindowClosed (counts ! nat (s - 1))))))"
proof (induction now lb counts i s0 rule: startLoop.induct)
  case (1 now lb counts i s0)
  show ?case
  proof (cases "i \<ge> 0")
    case True
    with "1.prems" have ix: "index counts i = Inr (counts ! nat i)" by (simp add: index_in_range)
    show ?thesis
    proof (cases "sint (now - timestamp (counts ! nat i)) \<le> sint lb \<and> IsWindowClosed (counts ! nat i)")
      case good: True
      have step: "startLoop now lb counts i s0 = startLoop now lb counts (i - 1) i"
        using True ix good by (subst startLoop.simps) simp
      from "1.prems" have "i - 1 < int (length counts)" by simp
      from "1.IH" [OF True ix good this] obtain s where
        s: "startLoop now lb counts (i - 1) i = Inr s" and
        d: "(s = i \<and> (0 \<le> i - 1 \<longrightarrow> \<not> (sint (now - timestamp (counts ! nat (i - 1))) \<le> sint lb \<and> IsWindowClosed (counts ! nat (i - 1))))) \<or>
      (0 \<le> s \<and> s \<le> i - 1 \<and>
       (\<forall>j. s \<le> j \<and> j \<le> i - 1 \<longrightarrow> sint (now - timestamp (counts ! nat j)) \<le> sint lb \<and> IsWindowClosed (counts ! nat j)) \<and>
       (0 < s \<longrightarrow> \<not> (sint (now - timestamp (counts ! nat (s - 1))) \<le> sint lb \<and> IsWindowClosed (counts ! nat (s - 1)))))"
        by blast
      from d have "0 \<le> s \<and> s \<le> i \<and>
       (\<forall>j. s \<le> j \<and> j \<le> i \<longrightarrow> sint (now - timestamp (counts ! nat j)) \<le> sint lb \<and> IsWindowClosed (counts ! nat j)) \<and>
       (0 < s \<longrightarrow> \<not> (sint (now - timestamp (counts ! nat (s - 1))) \<le> sint lb \<and> IsWindowClosed (counts ! nat (s - 1))))"
      proof
        assume a: "s = i \<and> (0 \<le> i - 1 \<longrightarrow> \<not> (sint (now - timestamp (counts ! nat (i - 1))) \<le> sint lb \<and> IsWindowClosed (counts ! nat (i - 1))))"
        have "\<And>j. s \<le> j \<and> j \<le> i \<Longrightarrow> j = i" using a by simp
        with a good True show ?thesis by auto
      next
        assume b: "0 \<le> s \<and> s \<le> i - 1 \<and>
       (\<forall>j. s \<le> j \<and> j \<le> i - 1 \<longrightarrow> sint (now - timestamp (counts ! nat j)) \<le> sint lb \<and> IsWindowClosed (counts ! nat j)) \<and>
       (0 < s \<longrightarrow> \<not> (sint (now - timestamp (counts ! nat (s - 1))) \<le> sint lb \<and> IsWindowClosed (counts ! nat (s - 1))))"
        have "\<And>j. s \<le> j \<and> j \<le> i \<Longrightarrow> j \<le> i - 1 \<or> j = i" by auto
        with b good show ?thesis by (metis order_less_imp_le zle_diff1_eq less_le)
      qed
      with s step show ?thesis by simp
    next
      case False
      with True ix have "startLoop now lb counts i s0 = Inr s0" by (subst startLoop.simps) auto
      with False show ?thesis by (intro exI [of _ s0]) auto
    qed
  next
    case False
    then have "startLoop now lb counts i s0 = Inr s0" by (subst startLoop.simps) simp
    with False show ?thesis by (intro exI [of _ s0]) auto
  qed
qed

lemma endLoop_spec:
  "i < int (length counts) \<Longrightarrow>
   \<exists>e. endLoop counts i = Inr e \<and>
     ((e = IndexNotFound \<and> (\<forall>j. 0 \<le> j \<and> j \<le> i \<longrightarrow> \<not> IsWindowClosed (counts ! nat j))) \<or>
      (0 \<le> e \<and> e \<le> i \<and> IsWindowClosed (counts ! nat e) \<and>
       (\<forall>j. e < j \<and> j \<le> i \<longrightarrow> \<not> IsWindowClosed (counts ! nat j))))"
proof (induction counts i rule: endLoop.induct)
  case (1 counts i)
  show ?case
  proof (cases "i \<ge> 0")
    case True
    with "1.prems" have ix: "index counts i = Inr (counts ! nat i)" by (simp add: index_in_range)
    show ?thesis
    proof (cases "IsWindowClosed (counts ! nat i)")
      case closed: True
      with True ix have "endLoop counts i = Inr i" by (subst endLoop.simps) simp
      with True closed show ?thesis by (intro exI [of _ i]) auto
    next
      case False
      have step: "endLoop counts i = endLoop counts (i - 1)"
        using True ix False by (subst endLoop.simps) simp
      from "1.prems" have "i - 1 < int (length counts)" by simp
      from "1.IH" [OF True ix False this] obtain e where
        e: "endLoop counts (i - 1) = Inr e" and
        d: "(e = IndexNotFound \<and> (\<forall>j. 0 \<le> j \<and> j \<le> i - 1 \<longrightarrow> \<not> IsWindowClosed (counts ! nat j))) \<or>
      (0 \<le> e \<and> e \<le> i - 1 \<and> IsWindowClosed (counts ! nat e) \<and>
       (\<forall>j. e < j \<and> j \<le> i - 1 \<longrightarrow> \<not> IsWindowClosed (counts ! nat j)))"
        by blast
      have split: "\<And>j. j \<le> i \<Longrightarrow> j \<le> i - 1 \<or> j = i" by auto
      from d have "(e = IndexNotFound \<and> (\<forall>j. 0 \<le> j \<and> j \<le> i \<longrightarrow> \<not> IsWindowClosed (counts ! nat j))) \<or>
      (0 \<le> e \<and> e \<le> i \<and> IsWindowClosed (counts ! nat e) \<and>
       (\<forall>j. e < j \<and> j \<le> i \<longrightarrow> \<not> IsWindowClosed (counts ! nat j)))"
        using False split by (metis order_less_imp_le zle_diff1_eq less_le)
      with e step show ?thesis by simp
    qed
  next
    case False
    then have "endLoop counts i = Inr IndexNotFound" by (subst endLoop.simps) simp
    with False show ?thesis by (intro exI [of _ IndexNotFound]) auto
  qed
qed

lemma deltaLoop_spec:
  "-1 \<le> i \<Longrightarrow> endIndex < int (length counts) \<Longrightarrow>
   deltaLoop counts partitionName i endIndex delta =
     Inr (delta + (\<Sum>j = i..<endIndex.
            if IsWindowClosed (counts ! nat (j + 1)) then calculatePartitionDelta (counts ! nat (j + 1)) partitionName else 0))"
proof (induction counts partitionName i endIndex delta rule: deltaLoop.induct)
  case (1 counts partitionName i endIndex delta)
  show ?case
  proof (cases "i < endIndex")
    case True
    with "1.prems" have ix: "index counts (i + 1) = Inr (counts ! nat (i + 1))" by (simp add: index_in_range)
    have step: "deltaLoop counts partitionName i endIndex delta =
      deltaLoop counts partitionName (i + 1) endIndex
        (if IsWindowClosed (counts ! nat (i + 1)) then delta + calculatePartitionDelta (counts ! nat (i + 1)) partitionName else delta)"
      using True ix by (subst deltaLoop.simps) simp
    from "1.prems" have p: "-1 \<le> i + 1" by simp
    have set: "{i..<endIndex} = insert i {i + 1..<endIndex}" using True by auto
    show ?thesis
      unfolding step "1.IH" [OF True ix p "1.prems"(2)] set
      by simp
  next
    case False
    then show ?thesis by (subst deltaLoop.simps) simp
  qed
qed

section \<open>The two indices and the rate between them\<close>

lemma findEndIndex_spec:
  "\<exists>e. findEndIndex counts = Inr e \<and>
     ((e = IndexNotFound \<and> (\<forall>j. 0 \<le> j \<and> j < int (length counts) \<longrightarrow> \<not> IsWindowClosed (counts ! nat j))) \<or>
      (0 \<le> e \<and> e < int (length counts) \<and> IsWindowClosed (counts ! nat e) \<and>
       (\<forall>j. e < j \<and> j < int (length counts) \<longrightarrow> \<not> IsWindowClosed (counts ! nat j))))"
proof -
  have "int (length counts) - 1 < int (length counts)" by simp
  from endLoop_spec [OF this] show ?thesis
    unfolding findEndIndex_def by simp
qed

lemma findEndIndex_range:
  "findEndIndex counts = Inr e \<Longrightarrow> e = IndexNotFound \<or> (0 \<le> e \<and> e < int (length counts))"
  using findEndIndex_spec [of counts] by auto

lemma findStartIndex_short: "length counts < 2 \<Longrightarrow> findStartIndex now lb counts = Inr IndexNotFound"
  by (simp add: findStartIndex_def Let_def)

lemma findStartIndex_stale:
  "2 \<le> length counts \<Longrightarrow> sint lb < sint (now - timestamp (counts ! (length counts - 2))) \<Longrightarrow>
   findStartIndex now lb counts = Inr IndexNotFound"
  by (simp add: findStartIndex_def Let_def index_def nat_diff_distrib')

lemma findStartIndex_loop:
  "2 \<le> length counts \<Longrightarrow> sint (now - timestamp (counts ! (length counts - 2))) \<le> sint lb \<Longrightarrow>
   findStartIndex now lb counts =
     startLoop now lb counts (int (length counts) - 2) (int (length counts) - 2)"
  by (simp add: findStartIndex_def Let_def index_def nat_diff_distrib')

lemma findStartIndex_range:
  "findStartIndex now lb counts = Inr s \<Longrightarrow> s = IndexNotFound \<or> (0 \<le> s \<and> s < int (length counts) - 1)"
proof (cases "2 \<le> length counts \<and> sint (now - timestamp (counts ! (length counts - 2))) \<le> sint lb")
  case True
  assume r: "findStartIndex now lb counts = Inr s"
  have "int (length counts) - 2 < int (length counts)" by simp
  from startLoop_spec [OF this, of now lb "int (length counts) - 2"] r True
  show ?thesis by (auto simp: findStartIndex_loop)
next
  case False
  assume "findStartIndex now lb counts = Inr s"
  with False show ?thesis
    by (cases "2 \<le> length counts") (auto simp: findStartIndex_short findStartIndex_stale)
qed

lemma findStartIndex_total: "\<exists>s. findStartIndex now lb counts = Inr s"
proof (cases "2 \<le> length counts \<and> sint (now - timestamp (counts ! (length counts - 2))) \<le> sint lb")
  case True
  have "int (length counts) - 2 < int (length counts)" by simp
  from startLoop_spec [OF this, of now lb "int (length counts) - 2"] True
  show ?thesis by (auto simp: findStartIndex_loop)
next
  case False
  then show ?thesis
    by (cases "2 \<le> length counts") (auto simp: findStartIndex_short findStartIndex_stale)
qed

lemma rateBetween_spec:
  assumes "0 \<le> s" "s < int (length counts)" "0 \<le> e" "e < int (length counts)"
  shows "rateBetween counts p s e =
     (if timestamp (counts ! nat e) = timestamp (counts ! nat s) then Inr 0
      else Inr ((\<Sum>j = s..<e.
            if IsWindowClosed (counts ! nat (j + 1)) then calculatePartitionDelta (counts ! nat (j + 1)) p else 0)
          / real_of_int (sint (timestamp (counts ! nat e) - timestamp (counts ! nat s)))))"
proof -
  from assms have "-1 \<le> s" by simp
  from deltaLoop_spec [OF this assms(4)] assms show ?thesis
    by (simp add: rateBetween_def index_in_range fdiv_def Let_def signed_eq_0_iff)
qed

lemma CalculateRate_found:
  assumes "1 < length (Items q)"
    and "findStartIndex now lb (Items q) = Inr s" and "findEndIndex (Items q) = Inr e"
    and "s \<noteq> IndexNotFound" and "e \<noteq> IndexNotFound"
  shows "CalculateRate now q lb p v = rateBetween (Items q) p s e"
  using assms by (auto simp add: CalculateRate_def Let_def)

lemma CalculateRate_not_found:
  assumes "findStartIndex now lb (Items q) = Inr s" and "findEndIndex (Items q) = Inr e"
    and "s = IndexNotFound \<or> e = IndexNotFound"
  shows "CalculateRate now q lb p v = Inr 0"
  using assms by (auto simp add: CalculateRate_def Let_def)

section \<open>The example, evaluated\<close>

lemma exampleQueue_Items:
  "Items exampleQueue =
    [\<lparr>timestamp = 100, podPartitionCount = [(''pod-0'', [(''p1'', 5)])], windowClosed = True,
       deltaSnapshot = [(''pod-0'', [(''p1'', 5)])]\<rparr>,
     \<lparr>timestamp = 110, podPartitionCount = [(''pod-0'', [(''p1'', 15)])], windowClosed = True,
       deltaSnapshot = [(''pod-0'', [(''p1'', 10)])]\<rparr>,
     \<lparr>timestamp = 120, podPartitionCount = [(''pod-0'', [(''p1'', 30)])], windowClosed = False,
       deltaSnapshot = []\<rparr>]"
  by (simp add: exampleQueue_def exampleReport_def UpdateCount_def Items_def Append_def
      closeMostRecent_def CloseWindow_def Update_def NewTimestampedCounts_def podDelta_def lookup_def)

lemma ex_start: "findStartIndex 120 20 (Items exampleQueue) = Inr 0"
  by (simp add: exampleQueue_Items findStartIndex_def startLoop.simps index_def IsWindowClosed_def)

lemma ex_end: "findEndIndex (Items exampleQueue) = Inr 1"
  by (simp add: exampleQueue_Items findEndIndex_def endLoop.simps index_def IsWindowClosed_def)


lemma ex_length: "length (Items exampleQueue) = 3"
  by (simp add: exampleQueue_Items)

lemma calculatePartitionDelta_sum_list:
  "calculatePartitionDelta c partitionName =
     (\<Sum>(pod, partitionCount) \<leftarrow> PodDeltaCountSnapshot c. lookup partitionCount 0 partitionName)"
  by (simp add: calculatePartitionDelta_def sumPartition_sum_list)

lemma int_interval_0_1: "{0::int..<1} = {0}"
  by auto

lemma twoBuckets_Items:
  "Items twoBuckets =
    [\<lparr>timestamp = 100, podPartitionCount = [(''pod-0'', [(''p1'', 5)])], windowClosed = True,
       deltaSnapshot = [(''pod-0'', [(''p1'', 5)])]\<rparr>,
     \<lparr>timestamp = 110, podPartitionCount = [(''pod-0'', [(''p1'', 15)])], windowClosed = False,
       deltaSnapshot = []\<rparr>]"
  by (simp add: twoBuckets_def exampleReport_def UpdateCount_def Items_def Append_def
      closeMostRecent_def CloseWindow_def Update_def NewTimestampedCounts_def podDelta_def lookup_def)


lemma CalculateRate_found_spec:
  assumes l: "1 < length (Items q)" and s: "findStartIndex now lb (Items q) = Inr s"
    and e: "findEndIndex (Items q) = Inr e" and ns: "s \<noteq> IndexNotFound" and ne: "e \<noteq> IndexNotFound"
  shows "CalculateRate now q lb p v =
      (if timestamp (Items q ! nat e) = timestamp (Items q ! nat s) then Inr 0
       else Inr ((\<Sum>j = s..<e.
            if IsWindowClosed (Items q ! nat (j + 1)) then calculatePartitionDelta (Items q ! nat (j + 1)) p else 0)
          / real_of_int (sint (timestamp (Items q ! nat e) - timestamp (Items q ! nat s)))))"
proof -
  from s ns findStartIndex_range [of now lb "Items q" s]
  have rs: "0 \<le> s" "s < int (length (Items q))" by auto
  from e ne findEndIndex_range [of "Items q" e]
  have re: "0 \<le> e" "e < int (length (Items q))" by auto
  show ?thesis
    unfolding CalculateRate_found [OF l s e ns ne] by (rule rateBetween_spec [OF rs re])
qed

section \<open>UpdateCount, case by case\<close>

lemma updateMatching_no_match:
  "\<forall>i\<in>set items. timestamp i \<noteq> time \<Longrightarrow> updateMatching items time r = None"
  by (induction items) simp_all

lemma updateMatching_first_match:
  "\<forall>i\<in>set before. timestamp i \<noteq> time \<Longrightarrow> timestamp b = time \<Longrightarrow>
   updateMatching (before @ b # after) time r = Some (before @ Update b r # after)"
  by (induction before) simp_all

lemma match_split:
  "\<exists>i\<in>set items. timestamp i = time \<Longrightarrow>
   \<exists>before b after. items = before @ b # after \<and> (\<forall>i\<in>set before. timestamp i \<noteq> time) \<and> timestamp b = time"
  using split_list_first_prop [of items "\<lambda>i. timestamp i = time"] by blast

lemma UpdateCount_no_match:
  "\<forall>i\<in>set (Items q). timestamp i \<noteq> time \<Longrightarrow>
   UpdateCount q time r =
     Append (q\<lparr>elems := closeMostRecent (Items q)\<rparr>) (Update (NewTimestampedCounts time) r)"
  by (simp add: UpdateCount_def updateMatching_no_match)

lemma UpdateCount_match:
  "Items q = before @ b # after \<Longrightarrow> \<forall>i\<in>set before. timestamp i \<noteq> time \<Longrightarrow> timestamp b = time \<Longrightarrow>
   UpdateCount q time r = q\<lparr>elems := before @ Update b r # after\<rparr>"
  by (simp add: UpdateCount_def updateMatching_first_match)

lemma closeMostRecent_two:
  "closeMostRecent (older @ [a, b]) = older @ [a, CloseWindow b (Some a)]"
  by (simp add: closeMostRecent_def nth_append list_update_append)

lemma closeMostRecent_length: "length (closeMostRecent items) = length items"
  by (simp add: closeMostRecent_def Let_def)

lemma closeMostRecent_earlier:
  "k + 1 < length items \<Longrightarrow> closeMostRecent items ! k = items ! k"
  by (simp add: closeMostRecent_def Let_def)

lemma Update_frame:
  "IsWindowClosed (Update tc r) = IsWindowClosed tc"
  "PodDeltaCountSnapshot (Update tc r) = PodDeltaCountSnapshot tc"
  "timestamp (Update tc r) = timestamp tc"
  by (simp_all add: Update_def IsWindowClosed_def PodDeltaCountSnapshot_def)

section \<open>Further histories, evaluated\<close>

lemma exampleQueue_rate: "CalculateRate 120 exampleQueue 20 ''p1'' ''v'' = Inr 1"
proof -
  have l: "1 < length (Items exampleQueue)" by (simp add: ex_length)
  have n: "(0::int) \<noteq> IndexNotFound" "(1::int) \<noteq> IndexNotFound" by (simp_all add: IndexNotFound_def)
  show ?thesis
    unfolding CalculateRate_found_spec [OF l ex_start ex_end n]
    by (simp add: int_interval_0_1 exampleQueue_Items IsWindowClosed_def calculatePartitionDelta_sum_list
        PodDeltaCountSnapshot_def lookup_def)
qed

lemma openTail_Items:
  "Items openTail =
    [\<lparr>timestamp = 100, podPartitionCount = [], windowClosed = True, deltaSnapshot = []\<rparr>,
     \<lparr>timestamp = 110, podPartitionCount = [], windowClosed = False, deltaSnapshot = []\<rparr>,
     \<lparr>timestamp = 120, podPartitionCount = [], windowClosed = False, deltaSnapshot = []\<rparr>]"
  by (simp add: openTail_def Items_def CloseWindow_def NewTimestampedCounts_def)

lemma lookup_nonneg:
  "\<forall>(part, d)\<in>set m. (0::real) \<le> d \<Longrightarrow> 0 \<le> lookup m 0 k"
  by (auto simp: lookup_def split: option.splits dest: map_of_SomeD)

lemma calculatePartitionDelta_nonneg:
  assumes "\<forall>(pod, partitionCount)\<in>set (PodDeltaCountSnapshot c). \<forall>(part, d)\<in>set partitionCount. 0 \<le> d"
  shows "0 \<le> calculatePartitionDelta c p"
  unfolding calculatePartitionDelta_sum_list
  using assms by (intro sum_list_nonneg) (auto intro: lookup_nonneg)

section \<open>Signed 64-bit differences\<close>

lemma sint_diff_exact:
  fixes a b :: int64
  assumes "- 9223372036854775808 \<le> sint a - sint b" and "sint a - sint b \<le> 9223372036854775807"
  shows "sint (a - b) = sint a - sint b"
  using assms by (simp add: sint_word_diff signed_take_bit_int_eq_self)

lemma sint_int64_range:
  fixes a :: int64
  shows "- 9223372036854775808 \<le> sint a" and "sint a \<le> 9223372036854775807"
  using sint_ge [of a] sint_lt [of a] by simp_all

section \<open>Histories built by the caller\<close>

lemma ingest_Nil: "ingest q [] = q"
  by (simp add: ingest_def)

lemma ingest_snoc: "ingest q (deliveries @ [(time, report)]) = UpdateCount (ingest q deliveries) time report"
  by (simp add: ingest_def)

lemma CloseWindow_closed: "IsWindowClosed (CloseWindow tc previous)"
  by (simp add: CloseWindow_def IsWindowClosed_def)

lemma CloseWindow_timestamp: "timestamp (CloseWindow tc previous) = timestamp tc"
  by (simp add: CloseWindow_def)

lemma closeMostRecent_snoc:
  "closeMostRecent (xs @ [x]) =
     xs @ [CloseWindow x (if xs = [] then None else Some (last xs))]"
proof (cases xs rule: rev_cases)
  case Nil
  then show ?thesis by (simp add: closeMostRecent_def)
next
  case (snoc ys y)
  then show ?thesis using closeMostRecent_two [of ys y x] by simp
qed

lemma closeMostRecent_all_closed:
  "list_all IsWindowClosed (butlast items) \<Longrightarrow> list_all IsWindowClosed (closeMostRecent items)"
proof (cases items rule: rev_cases)
  case Nil
  then show ?thesis by (simp add: closeMostRecent_def)
next
  case (snoc xs x)
  assume "list_all IsWindowClosed (butlast items)"
  with snoc show ?thesis by (simp add: closeMostRecent_snoc CloseWindow_closed)
qed

lemma closeMostRecent_timestamps:
  "map timestamp (closeMostRecent items) = map timestamp items"
proof (cases items rule: rev_cases)
  case Nil
  then show ?thesis by (simp add: closeMostRecent_def)
next
  case (snoc xs x)
  then show ?thesis by (simp add: closeMostRecent_snoc CloseWindow_timestamp)
qed

lemma Items_Append:
  "Items (Append q x) = (if capacity q < length (Items q) + 1 then tl (Items q @ [x]) else Items q @ [x])"
  by (simp add: Append_def Items_def Let_def)

lemma list_all_tl: "list_all P xs \<Longrightarrow> list_all P (tl xs)"
  by (cases xs) simp_all

lemma UpdateCount_Items_cases:
  "(\<exists>before b after. Items q = before @ b # after \<and>
       Items (UpdateCount q time r) = before @ Update b r # after) \<or>
   Items (UpdateCount q time r) = closeMostRecent (Items q) @ [Update (NewTimestampedCounts time) r] \<or>
   Items (UpdateCount q time r) = tl (closeMostRecent (Items q) @ [Update (NewTimestampedCounts time) r])"
proof (cases "\<exists>i\<in>set (Items q). timestamp i = time")
  case True
  from match_split [OF this] obtain before b after where
    sp: "Items q = before @ b # after" "\<forall>i\<in>set before. timestamp i \<noteq> time" "timestamp b = time"
    by blast
  then have "Items (UpdateCount q time r) = before @ Update b r # after"
    by (simp add: UpdateCount_match Items_def)
  with sp(1) show ?thesis by blast
next
  case False
  then have "UpdateCount q time r =
     Append (q\<lparr>elems := closeMostRecent (Items q)\<rparr>) (Update (NewTimestampedCounts time) r)"
    by (simp add: UpdateCount_no_match)
  then show ?thesis by (simp add: Items_Append) (simp add: Items_def)
qed

lemma UpdateCount_closed_but_last:
  assumes "list_all IsWindowClosed (butlast (Items q))"
  shows "list_all IsWindowClosed (butlast (Items (UpdateCount q time r)))"
proof -
  let ?new = "Update (NewTimestampedCounts time) r"
  have appended: "list_all IsWindowClosed (butlast (closeMostRecent (Items q) @ [?new]))"
    using assms by (simp add: closeMostRecent_all_closed)
  have "list_all IsWindowClosed (butlast (tl (closeMostRecent (Items q) @ [?new])))"
  proof (cases "closeMostRecent (Items q)")
    case Nil
    then show ?thesis by simp
  next
    case (Cons y ys)
    with appended show ?thesis by simp
  qed
  moreover have "list_all IsWindowClosed (butlast (before @ Update b r # after))"
    if "Items q = before @ b # after" for before b after
    using assms that by (cases after rule: rev_cases) (simp_all add: butlast_append Update_frame)
  ultimately show ?thesis
    using UpdateCount_Items_cases [of q time r] appended by auto
qed

lemma ingest_closed_but_last:
  "list_all IsWindowClosed (butlast (Items (ingest \<lparr>elems = [], capacity = cap\<rparr> deliveries)))"
proof (induction deliveries rule: rev_induct)
  case Nil
  then show ?case by (simp add: ingest_Nil Items_def)
next
  case (snoc x deliveries)
  then show ?case by (cases x) (simp add: ingest_snoc UpdateCount_closed_but_last)
qed

lemma closed_but_last_nth:
  "list_all IsWindowClosed (butlast items) \<Longrightarrow> k + 1 < length items \<Longrightarrow> IsWindowClosed (items ! k)"
  by (simp add: list_all_length nth_butlast)

lemma set_tl_subset: "set (tl xs) \<subseteq> set xs"
  by (cases xs) auto

lemma closeMostRecent_timestamp_set:
  "timestamp ` set (closeMostRecent items) = timestamp ` set items"
proof -
  have "set (map timestamp (closeMostRecent items)) = set (map timestamp items)"
    by (simp only: closeMostRecent_timestamps)
  then show ?thesis by simp
qed

lemma UpdateCount_timestamps:
  "timestamp ` set (Items (UpdateCount q time r)) \<subseteq> insert time (timestamp ` set (Items q))"
proof -
  let ?new = "Update (NewTimestampedCounts time) r"
  have new: "timestamp ?new = time" by (simp add: Update_frame NewTimestampedCounts_def)
  have appended: "timestamp ` set (closeMostRecent (Items q) @ [?new]) = insert time (timestamp ` set (Items q))"
    by (simp add: closeMostRecent_timestamp_set new)
  have "timestamp ` set (tl (closeMostRecent (Items q) @ [?new]))
      \<subseteq> timestamp ` set (closeMostRecent (Items q) @ [?new])"
    by (rule image_mono) (rule set_tl_subset)
  with appended have dropped: "timestamp ` set (tl (closeMostRecent (Items q) @ [?new]))
      \<subseteq> insert time (timestamp ` set (Items q))"
    by simp
  have matched: "timestamp ` set (before @ Update b r # after) = timestamp ` set (before @ b # after)"
    for before b after
    by (simp add: Update_frame)
  from UpdateCount_Items_cases [of q time r] show ?thesis
  proof (elim disjE exE conjE)
    fix before b after
    assume "Items q = before @ b # after" "Items (UpdateCount q time r) = before @ Update b r # after"
    with matched [of before b after] show ?thesis by (simp only:) auto
  next
    assume "Items (UpdateCount q time r) = closeMostRecent (Items q) @ [?new]"
    with appended show ?thesis by (simp only:)
  next
    assume "Items (UpdateCount q time r) = tl (closeMostRecent (Items q) @ [?new])"
    with dropped show ?thesis by (simp only:)
  qed
qed

lemma UpdateCount_sorted:
  assumes "sorted (map (\<lambda>b. sint (timestamp b)) (Items q))"
    and "\<forall>b\<in>set (Items q). sint (timestamp b) \<le> sint time"
  shows "sorted (map (\<lambda>b. sint (timestamp b)) (Items (UpdateCount q time r)))"
proof -
  let ?ts = "\<lambda>b. sint (timestamp b)"
  let ?new = "Update (NewTimestampedCounts time) r"
  have same: "map ?ts (closeMostRecent (Items q)) = map ?ts (Items q)"
  proof -
    have split: "map ?ts xs = map sint (map timestamp xs)" for xs :: "TimestampedCounts list" by simp
    show ?thesis unfolding split closeMostRecent_timestamps ..
  qed
  have appended: "sorted (map ?ts (closeMostRecent (Items q) @ [?new]))"
    using assms by (simp add: same sorted_append Update_frame NewTimestampedCounts_def)
  then have "sorted (map ?ts (tl (closeMostRecent (Items q) @ [?new])))"
    by (simp add: map_tl sorted_tl)
  moreover have "sorted (map ?ts (before @ Update b r # after))"
    if "Items q = before @ b # after" for before b after
    using assms(1) that by (simp add: Update_frame)
  ultimately show ?thesis
    using UpdateCount_Items_cases [of q time r] appended by auto
qed

lemma ingest_sorted:
  assumes "sorted (map (\<lambda>d. sint (fst d)) deliveries)"
  shows "sorted (map (\<lambda>b. sint (timestamp b)) (Items (ingest \<lparr>elems = [], capacity = cap\<rparr> deliveries))) \<and>
     timestamp ` set (Items (ingest \<lparr>elems = [], capacity = cap\<rparr> deliveries)) \<subseteq> fst ` set deliveries"
  using assms
proof (induction deliveries rule: rev_induct)
  case Nil
  then show ?case by (simp add: ingest_Nil Items_def)
next
  case (snoc x deliveries)
  obtain time r where x: "x = (time, r)" by (cases x)
  let ?q = "ingest \<lparr>elems = [], capacity = cap\<rparr> deliveries"
  from snoc.prems x have so: "sorted (map (\<lambda>d. sint (fst d)) deliveries)"
    and le: "\<forall>d\<in>set deliveries. sint (fst d) \<le> sint time"
    by (auto simp: sorted_append)
  from snoc.IH [OF so] have ih: "sorted (map (\<lambda>b. sint (timestamp b)) (Items ?q))"
    "timestamp ` set (Items ?q) \<subseteq> fst ` set deliveries" by simp_all
  have "\<forall>b\<in>set (Items ?q). sint (timestamp b) \<le> sint time"
  proof
    fix b assume "b \<in> set (Items ?q)"
    with ih(2) have "timestamp b \<in> fst ` set deliveries" by blast
    then obtain d where "d \<in> set deliveries" "timestamp b = fst d" by blast
    with le show "sint (timestamp b) \<le> sint time" by simp
  qed
  with ih(1) have "sorted (map (\<lambda>b. sint (timestamp b)) (Items (UpdateCount ?q time r)))"
    by (rule UpdateCount_sorted)
  moreover from UpdateCount_timestamps [of ?q time r] ih(2)
  have "timestamp ` set (Items (UpdateCount ?q time r)) \<subseteq> fst ` set (deliveries @ [(time, r)])"
    by auto
  ultimately show ?case by (simp add: x ingest_snoc)
qed

lemma exampleQueue_ingest:
  "exampleQueue = ingest \<lparr>elems = [], capacity = 100\<rparr>
     [(100, exampleReport 5), (110, exampleReport 15), (120, exampleReport 30)]"
  by (simp add: exampleQueue_def ingest_def)

lemma farPastQueue_ingest:
  "farPastQueue = ingest \<lparr>elems = [], capacity = 100\<rparr>
     [(- 9223372036854775800, exampleReport 5), (110, exampleReport 15), (120, exampleReport 30)]"
  by (simp add: farPastQueue_def ingest_def)

lemma findStartIndex_scan_int64:
  assumes "2 \<le> length counts"
    and "sint (now - timestamp (counts ! (length counts - 2))) \<le> sint lookbackSeconds"
    and "IsWindowClosed (counts ! (length counts - 2))"
  shows "\<exists>startIndex. findStartIndex now lookbackSeconds counts = Inr startIndex \<and>
     0 \<le> startIndex \<and> startIndex \<le> int (length counts) - 2 \<and>
     (\<forall>j. startIndex \<le> j \<and> j \<le> int (length counts) - 2 \<longrightarrow>
         sint (now - timestamp (counts ! nat j)) \<le> sint lookbackSeconds \<and> IsWindowClosed (counts ! nat j)) \<and>
     (0 < startIndex \<longrightarrow>
         \<not> (sint (now - timestamp (counts ! nat (startIndex - 1))) \<le> sint lookbackSeconds \<and>
            IsWindowClosed (counts ! nat (startIndex - 1))))"
proof -
  let ?m = "int (length counts) - 2"
  have m: "nat ?m = length counts - 2" using assms(1) by simp
  have m0: "0 \<le> ?m" using assms(1) by simp
  have "?m < int (length counts)" by simp
  from startLoop_spec [OF this, of now lookbackSeconds ?m] obtain s where
    s: "startLoop now lookbackSeconds counts ?m ?m = Inr s" and
    d: "(s = ?m \<and> (0 \<le> ?m \<longrightarrow> \<not> (sint (now - timestamp (counts ! nat ?m)) \<le> sint lookbackSeconds \<and> IsWindowClosed (counts ! nat ?m)))) \<or>
      (0 \<le> s \<and> s \<le> ?m \<and>
       (\<forall>j. s \<le> j \<and> j \<le> ?m \<longrightarrow> sint (now - timestamp (counts ! nat j)) \<le> sint lookbackSeconds \<and> IsWindowClosed (counts ! nat j)) \<and>
       (0 < s \<longrightarrow> \<not> (sint (now - timestamp (counts ! nat (s - 1))) \<le> sint lookbackSeconds \<and> IsWindowClosed (counts ! nat (s - 1)))))"
    by blast
  have f: "findStartIndex now lookbackSeconds counts = Inr s"
    using assms s by (simp add: findStartIndex_loop)
  from d assms(2,3) m m0 have "0 \<le> s \<and> s \<le> ?m \<and>
       (\<forall>j. s \<le> j \<and> j \<le> ?m \<longrightarrow> sint (now - timestamp (counts ! nat j)) \<le> sint lookbackSeconds \<and> IsWindowClosed (counts ! nat j)) \<and>
       (0 < s \<longrightarrow> \<not> (sint (now - timestamp (counts ! nat (s - 1))) \<le> sint lookbackSeconds \<and> IsWindowClosed (counts ! nat (s - 1))))"
    by (simp only:) blast
  with f show ?thesis by (intro exI [of _ s]) simp
qed

section \<open>Histories with timestamps far apart, evaluated\<close>

lemma farPastQueue_Items:
  "Items farPastQueue =
    [\<lparr>timestamp = - 9223372036854775800, podPartitionCount = [(''pod-0'', [(''p1'', 5)])], windowClosed = True,
       deltaSnapshot = [(''pod-0'', [(''p1'', 5)])]\<rparr>,
     \<lparr>timestamp = 110, podPartitionCount = [(''pod-0'', [(''p1'', 15)])], windowClosed = True,
       deltaSnapshot = [(''pod-0'', [(''p1'', 10)])]\<rparr>,
     \<lparr>timestamp = 120, podPartitionCount = [(''pod-0'', [(''p1'', 30)])], windowClosed = False,
       deltaSnapshot = []\<rparr>]"
  by (simp add: farPastQueue_def exampleReport_def UpdateCount_def Items_def Append_def
      closeMostRecent_def CloseWindow_def Update_def NewTimestampedCounts_def podDelta_def lookup_def)

lemma stalePairQueue_Items:
  "Items stalePairQueue =
    [\<lparr>timestamp = - 9223372036854775800, podPartitionCount = [(''pod-0'', [(''p1'', 5)])], windowClosed = True,
       deltaSnapshot = [(''pod-0'', [(''p1'', 5)])]\<rparr>,
     \<lparr>timestamp = - 9223372036854775790, podPartitionCount = [(''pod-0'', [(''p1'', 15)])], windowClosed = True,
       deltaSnapshot = [(''pod-0'', [(''p1'', 10)])]\<rparr>,
     \<lparr>timestamp = 120, podPartitionCount = [(''pod-0'', [(''p1'', 30)])], windowClosed = False,
       deltaSnapshot = []\<rparr>]"
  by (simp add: stalePairQueue_def exampleReport_def UpdateCount_def Items_def Append_def
      closeMostRecent_def CloseWindow_def Update_def NewTimestampedCounts_def podDelta_def lookup_def)

lemma farPast_start: "findStartIndex 120 20 (Items farPastQueue) = Inr 0"
  by (simp add: farPastQueue_Items findStartIndex_def startLoop.simps index_def IsWindowClosed_def)

lemma farPast_end: "findEndIndex (Items farPastQueue) = Inr 1"
  by (simp add: farPastQueue_Items findEndIndex_def endLoop.simps index_def IsWindowClosed_def)

lemma stalePair_start: "findStartIndex 120 20 (Items stalePairQueue) = Inr 0"
  by (simp add: stalePairQueue_Items findStartIndex_def startLoop.simps index_def IsWindowClosed_def)

lemma stalePair_end: "findEndIndex (Items stalePairQueue) = Inr 1"
  by (simp add: stalePairQueue_Items findEndIndex_def endLoop.simps index_def IsWindowClosed_def)

lemma stalePair_rate: "CalculateRate 120 stalePairQueue 20 ''p1'' ''v'' = Inr 1"
proof -
  have l: "1 < length (Items stalePairQueue)" by (simp add: stalePairQueue_Items)
  have n: "(0::int) \<noteq> IndexNotFound" "(1::int) \<noteq> IndexNotFound" by (simp_all add: IndexNotFound_def)
  show ?thesis
    unfolding CalculateRate_found_spec [OF l stalePair_start stalePair_end n]
    by (simp add: int_interval_0_1 stalePairQueue_Items IsWindowClosed_def calculatePartitionDelta_sum_list
        PodDeltaCountSnapshot_def lookup_def)
qed

lemma farPast_rate: "CalculateRate 120 farPastQueue 20 ''p1'' ''v'' = Inr (10 / - 9223372036854775706)"
proof -
  have l: "1 < length (Items farPastQueue)" by (simp add: farPastQueue_Items)
  have n: "(0::int) \<noteq> IndexNotFound" "(1::int) \<noteq> IndexNotFound" by (simp_all add: IndexNotFound_def)
  show ?thesis
    unfolding CalculateRate_found_spec [OF l farPast_start farPast_end n]
    by (simp add: int_interval_0_1 farPastQueue_Items IsWindowClosed_def calculatePartitionDelta_sum_list
        PodDeltaCountSnapshot_def lookup_def)
qed

lemma four_reports_Items:
  assumes "t1 \<noteq> t0" "t2 \<noteq> t0" "t2 \<noteq> t1" "t3 \<noteq> t0" "t3 \<noteq> t1" "t3 \<noteq> t2"
    and "4 \<le> cap" and "c0 \<le> c1" "c1 \<le> c2"
  shows "Items (UpdateCount (UpdateCount (UpdateCount (UpdateCount \<lparr>elems = [], capacity = cap\<rparr>
            t0 \<lparr>podName = pod, readCounts = [(p, c0)]\<rparr>)
            t1 \<lparr>podName = pod, readCounts = [(p, c1)]\<rparr>)
            t2 \<lparr>podName = pod, readCounts = [(p, c2)]\<rparr>)
            t3 later) =
    [\<lparr>timestamp = t0, podPartitionCount = [(pod, [(p, c0)])], windowClosed = True,
       deltaSnapshot = [(pod, [(p, c0)])]\<rparr>,
     \<lparr>timestamp = t1, podPartitionCount = [(pod, [(p, c1)])], windowClosed = True,
       deltaSnapshot = [(pod, [(p, c1 - c0)])]\<rparr>,
     \<lparr>timestamp = t2, podPartitionCount = [(pod, [(p, c2)])], windowClosed = True,
       deltaSnapshot = [(pod, [(p, c2 - c1)])]\<rparr>,
     Update (NewTimestampedCounts t3) later]"
  using assms
  by (simp add: UpdateCount_def Items_def Append_def
      closeMostRecent_def CloseWindow_def Update_def NewTimestampedCounts_def podDelta_def lookup_def)

lemma int_interval_0_2: "{0::int..<2} = {0, 1}"
  by auto

lemma sint_double:
  fixes d :: int64
  assumes "0 < sint d" and "2 * sint d \<le> 9223372036854775807"
  shows "sint (d + d) = 2 * sint d"
proof -
  have "sint (d + d) = signed_take_bit (LENGTH(64) - 1) (sint d + sint d)"
    by (rule sint_word_add)
  also have "\<dots> = sint d + sint d"
    using assms by (intro signed_take_bit_int_eq_self) simp_all
  finally show ?thesis by (simp only: mult_2)
qed

section \<open>Properties\<close>

text \<open>
  C7. On a history of zero or one buckets \<open>CalculateRate\<close> returns the rate 0, for every
  wall clock, lookback, partition and vertex name, and it returns it as an ordinary
  value, not as a fault.
\<close>

theorem CalculateRate_short_history:
  "length (Items q) \<le> 1 \<Longrightarrow> CalculateRate now q lookbackSeconds partitionName vertexName = Inr 0"
  by (simp add: CalculateRate_def)

theorem CalculateRate_short_history_witness:
  "length (Items \<lparr>elems = [NewTimestampedCounts 100], capacity = 100\<rparr>) \<le> 1
   \<and> CalculateRate 120 \<lparr>elems = [NewTimestampedCounts 100], capacity = 100\<rparr> 20 ''p1'' ''v'' = Inr 0"
  using CalculateRate_short_history [of "\<lparr>elems = [NewTimestampedCounts 100], capacity = 100\<rparr>" 120 20 "''p1''" "''v''"]
  by (simp add: Items_def)



text \<open>
  C5, as amended. On a history of at least two buckets whose second-to-last bucket is
  older than \<open>now - lookbackSeconds\<close>, and not so old that \<open>now\<close> minus its timestamp is more
  than the greatest \<open>int64\<close>, \<open>CalculateRate\<close> returns 0, whatever the other buckets hold.
\<close>

theorem CalculateRate_stale:
  assumes "2 \<le> length (Items q)"
    and "sint (timestamp (Items q ! (length (Items q) - 2))) < sint now - sint lookbackSeconds"
    and "sint now - sint (timestamp (Items q ! (length (Items q) - 2))) \<le> 9223372036854775807"
  shows "CalculateRate now q lookbackSeconds partitionName vertexName = Inr 0"
proof -
  let ?ts = "timestamp (Items q ! (length (Items q) - 2))"
  from assms(2) sint_int64_range(1) [of lookbackSeconds]
  have "- 9223372036854775808 \<le> sint now - sint ?ts" by linarith
  from sint_diff_exact [OF this assms(3)] assms(2)
  have "sint lookbackSeconds < sint (now - ?ts)" by simp
  with assms(1) have "findStartIndex now lookbackSeconds (Items q) = Inr IndexNotFound"
    by (rule findStartIndex_stale)
  moreover obtain e where "findEndIndex (Items q) = Inr e"
    using findEndIndex_spec [of "Items q"] by blast
  ultimately show ?thesis by (simp add: CalculateRate_not_found)
qed

theorem CalculateRate_stale_witness:
  "2 \<le> length (Items exampleQueue)
   \<and> sint (timestamp (Items exampleQueue ! (length (Items exampleQueue) - 2))) < sint (140 :: int64) - sint (20 :: int64)
   \<and> CalculateRate 140 exampleQueue 20 ''p1'' ''v'' = Inr 0"
proof -
  have l: "2 \<le> length (Items exampleQueue)" by (simp add: ex_length)
  have t: "sint (timestamp (Items exampleQueue ! (length (Items exampleQueue) - 2))) < sint (140 :: int64) - sint (20 :: int64)"
    by (simp add: exampleQueue_Items)
  have b: "sint (140 :: int64) - sint (timestamp (Items exampleQueue ! (length (Items exampleQueue) - 2))) \<le> 9223372036854775807"
    by (simp add: exampleQueue_Items)
  from l t CalculateRate_stale [OF l t b, of "''p1''" "''v''"] show ?thesis by simp
qed

text \<open>
  C5 as stated fails: with the first two timestamps near the least \<open>int64\<close>, the
  second-to-last bucket is older than \<open>now - lookbackSeconds\<close>, the subtraction
  \<open>now - timestamp\<close> wraps around to a negative number, and the rate is 1.
\<close>

theorem CalculateRate_stale_wraps:
  "2 \<le> length (Items stalePairQueue)
   \<and> sint (timestamp (Items stalePairQueue ! (length (Items stalePairQueue) - 2))) < sint (120 :: int64) - sint (20 :: int64)
   \<and> CalculateRate 120 stalePairQueue 20 ''p1'' ''v'' = Inr 1"
  by (simp add: stalePair_rate) (simp add: stalePairQueue_Items)



text \<open>
  C8. \<open>CalculateRate\<close> returns a rate on every input: no index is out of range and the
  division is never reached with a zero divisor. When both indices are found and the
  buckets at them have the same timestamp, the rate returned is 0.
\<close>

theorem CalculateRate_total:
  "(\<exists>rate. CalculateRate now q lookbackSeconds partitionName vertexName = Inr rate) \<and>
   (1 < length (Items q) \<and>
    findStartIndex now lookbackSeconds (Items q) = Inr startIndex \<and>
    findEndIndex (Items q) = Inr endIndex \<and>
    startIndex \<noteq> IndexNotFound \<and> endIndex \<noteq> IndexNotFound \<and>
    timestamp (Items q ! nat endIndex) = timestamp (Items q ! nat startIndex)
    \<longrightarrow> CalculateRate now q lookbackSeconds partitionName vertexName = Inr 0)"
proof -
  obtain s where s: "findStartIndex now lookbackSeconds (Items q) = Inr s"
    using findStartIndex_total by blast
  obtain e where e: "findEndIndex (Items q) = Inr e"
    using findEndIndex_spec [of "Items q"] by blast
  have total: "\<exists>rate. CalculateRate now q lookbackSeconds partitionName vertexName = Inr rate"
  proof (cases "1 < length (Items q) \<and> s \<noteq> IndexNotFound \<and> e \<noteq> IndexNotFound")
    case True
    with CalculateRate_found_spec [OF _ s e, of partitionName vertexName] show ?thesis
      by (cases "timestamp (Items q ! nat e) = timestamp (Items q ! nat s)") simp_all
  next
    case False
    then consider "length (Items q) \<le> 1" | "s = IndexNotFound \<or> e = IndexNotFound" by linarith
    then show ?thesis
    proof cases
      case 1
      then show ?thesis by (simp add: CalculateRate_def)
    next
      case 2
      with s e show ?thesis by (simp add: CalculateRate_not_found)
    qed
  qed
  have equal: "CalculateRate now q lookbackSeconds partitionName vertexName = Inr 0"
    if "1 < length (Items q)" "findStartIndex now lookbackSeconds (Items q) = Inr startIndex"
      "findEndIndex (Items q) = Inr endIndex" "startIndex \<noteq> IndexNotFound" "endIndex \<noteq> IndexNotFound"
      "timestamp (Items q ! nat endIndex) = timestamp (Items q ! nat startIndex)"
    using CalculateRate_found_spec [OF that(1-5), of partitionName vertexName] that(6) by simp
  from total equal show ?thesis by blast
qed

theorem CalculateRate_total_witness:
  "findStartIndex 110 20 (Items twoBuckets) = Inr 0 \<and> findEndIndex (Items twoBuckets) = Inr 0
   \<and> CalculateRate 110 twoBuckets 20 ''p1'' ''v'' = Inr 0"
proof -
  have s: "findStartIndex 110 20 (Items twoBuckets) = Inr 0"
    by (simp add: twoBuckets_Items findStartIndex_def startLoop.simps index_def IsWindowClosed_def)
  have e: "findEndIndex (Items twoBuckets) = Inr 0"
    by (simp add: twoBuckets_Items findEndIndex_def endLoop.simps index_def IsWindowClosed_def)
  have l: "1 < length (Items twoBuckets)" by (simp add: twoBuckets_Items)
  from CalculateRate_total [of 110 twoBuckets 20 "''p1''" "''v''" 0 0] s e l
  show ?thesis by (simp add: IndexNotFound_def)
qed

text \<open>
  C3, as amended. Take a history built by the caller, of at least two buckets, whose
  second-to-last bucket is within the lookback, and let no bucket be so far from \<open>now\<close> that
  \<open>now\<close> minus its timestamp leaves the \<open>int64\<close> range. Then \<open>findStartIndex\<close> returns an
  index at or before the second-to-last one; every bucket from the start index to the
  second-to-last is within the lookback and closed, and the bucket before the start index,
  if there is one, is not: the scan stopped at the first bucket that breaks a condition.
\<close>

theorem findStartIndex_scan:
  assumes "q = ingest \<lparr>elems = [], capacity = cap\<rparr> deliveries"
    and "2 \<le> length (Items q)"
    and "\<forall>b\<in>set (Items q). - 9223372036854775808 \<le> sint now - sint (timestamp b) \<and>
            sint now - sint (timestamp b) \<le> 9223372036854775807"
    and "sint now - sint (timestamp (Items q ! (length (Items q) - 2))) \<le> sint lookbackSeconds"
  shows "\<exists>startIndex. findStartIndex now lookbackSeconds (Items q) = Inr startIndex \<and>
     0 \<le> startIndex \<and> startIndex \<le> int (length (Items q)) - 2 \<and>
     (\<forall>j. startIndex \<le> j \<and> j \<le> int (length (Items q)) - 2 \<longrightarrow>
         sint now - sint (timestamp (Items q ! nat j)) \<le> sint lookbackSeconds \<and> IsWindowClosed (Items q ! nat j)) \<and>
     (0 < startIndex \<longrightarrow>
         \<not> (sint now - sint (timestamp (Items q ! nat (startIndex - 1))) \<le> sint lookbackSeconds \<and>
            IsWindowClosed (Items q ! nat (startIndex - 1))))"
proof -
  let ?n = "length (Items q)"
  have exact: "sint (now - timestamp (Items q ! k)) = sint now - sint (timestamp (Items q ! k))" if "k < ?n" for k
  proof -
    from that have "Items q ! k \<in> set (Items q)" by simp
    with assms(3) show ?thesis by (intro sint_diff_exact) blast+
  qed
  have closed: "IsWindowClosed (Items q ! (?n - 2))"
    using ingest_closed_but_last [of cap deliveries] assms(1,2)
    by (intro closed_but_last_nth) simp_all
  have within: "sint (now - timestamp (Items q ! (?n - 2))) \<le> sint lookbackSeconds"
    using assms(2,4) by (simp add: exact)
  from findStartIndex_scan_int64 [OF assms(2) within closed] obtain s where
    f: "findStartIndex now lookbackSeconds (Items q) = Inr s" and r: "0 \<le> s" "s \<le> int ?n - 2" and
    a: "\<forall>j. s \<le> j \<and> j \<le> int ?n - 2 \<longrightarrow>
         sint (now - timestamp (Items q ! nat j)) \<le> sint lookbackSeconds \<and> IsWindowClosed (Items q ! nat j)" and
    b: "0 < s \<longrightarrow>
         \<not> (sint (now - timestamp (Items q ! nat (s - 1))) \<le> sint lookbackSeconds \<and>
            IsWindowClosed (Items q ! nat (s - 1)))"
    by blast
  have a': "\<forall>j. s \<le> j \<and> j \<le> int ?n - 2 \<longrightarrow>
         sint now - sint (timestamp (Items q ! nat j)) \<le> sint lookbackSeconds \<and> IsWindowClosed (Items q ! nat j)"
  proof (intro allI impI)
    fix j assume j: "s \<le> j \<and> j \<le> int ?n - 2"
    with r assms(2) have "nat j < ?n" by linarith
    note e = exact [OF this]
    from a j have "sint (now - timestamp (Items q ! nat j)) \<le> sint lookbackSeconds \<and> IsWindowClosed (Items q ! nat j)"
      by blast
    then show "sint now - sint (timestamp (Items q ! nat j)) \<le> sint lookbackSeconds \<and> IsWindowClosed (Items q ! nat j)"
      unfolding e .
  qed
  have b': "0 < s \<longrightarrow>
         \<not> (sint now - sint (timestamp (Items q ! nat (s - 1))) \<le> sint lookbackSeconds \<and>
            IsWindowClosed (Items q ! nat (s - 1)))"
  proof
    assume "0 < s"
    with r assms(2) have "nat (s - 1) < ?n" by linarith
    note e = exact [OF this]
    from b \<open>0 < s\<close> have "\<not> (sint (now - timestamp (Items q ! nat (s - 1))) \<le> sint lookbackSeconds \<and>
            IsWindowClosed (Items q ! nat (s - 1)))"
      by blast
    then show "\<not> (sint now - sint (timestamp (Items q ! nat (s - 1))) \<le> sint lookbackSeconds \<and>
            IsWindowClosed (Items q ! nat (s - 1)))"
      unfolding e .
  qed
  from f r a' b' show ?thesis by blast
qed

theorem findStartIndex_scan_witness:
  "2 \<le> length (Items exampleQueue)
   \<and> sint (120 :: int64) - sint (timestamp (Items exampleQueue ! (length (Items exampleQueue) - 2))) \<le> sint (20 :: int64)
   \<and> findStartIndex 120 20 (Items exampleQueue) = Inr 0
   \<and> IsWindowClosed (Items exampleQueue ! nat 0)
   \<and> sint (120 :: int64) - sint (timestamp (Items exampleQueue ! nat 0)) \<le> sint (20 :: int64)"
proof -
  have l: "2 \<le> length (Items exampleQueue)" by (simp add: ex_length)
  have t: "sint (120 :: int64) - sint (timestamp (Items exampleQueue ! (length (Items exampleQueue) - 2))) \<le> sint (20 :: int64)"
    by (simp add: exampleQueue_Items)
  have r: "\<forall>b\<in>set (Items exampleQueue). - 9223372036854775808 \<le> sint (120 :: int64) - sint (timestamp b) \<and>
            sint (120 :: int64) - sint (timestamp b) \<le> 9223372036854775807"
    by (simp add: exampleQueue_Items)
  from findStartIndex_scan [OF exampleQueue_ingest l r t] obtain s where
    "findStartIndex 120 20 (Items exampleQueue) = Inr s"
    "\<forall>j. s \<le> j \<and> j \<le> int (length (Items exampleQueue)) - 2 \<longrightarrow>
         sint (120 :: int64) - sint (timestamp (Items exampleQueue ! nat j)) \<le> sint (20 :: int64) \<and>
         IsWindowClosed (Items exampleQueue ! nat j)"
    "s \<le> int (length (Items exampleQueue)) - 2"
    by blast
  then have "findStartIndex 120 20 (Items exampleQueue) = Inr 0
   \<and> IsWindowClosed (Items exampleQueue ! nat 0)
   \<and> sint (120 :: int64) - sint (timestamp (Items exampleQueue ! nat 0)) \<le> sint (20 :: int64)"
    by (auto simp: ex_start)
  with l t show ?thesis by blast
qed

text \<open>
  C3 as stated fails: on a history built by the caller whose first timestamp is near the
  least \<open>int64\<close>, the subtraction \<open>now - timestamp\<close> wraps around for the first bucket, the
  scan takes it for a bucket within the lookback, and the start index is that of a bucket
  far outside the lookback.
\<close>

theorem findStartIndex_beyond_lookback:
  "farPastQueue = ingest \<lparr>elems = [], capacity = 100\<rparr>
     [(- 9223372036854775800, exampleReport 5), (110, exampleReport 15), (120, exampleReport 30)]
   \<and> 2 \<le> length (Items farPastQueue)
   \<and> sint (120 :: int64) - sint (timestamp (Items farPastQueue ! (length (Items farPastQueue) - 2))) \<le> sint (20 :: int64)
   \<and> findStartIndex 120 20 (Items farPastQueue) = Inr 0
   \<and> \<not> sint (120 :: int64) - sint (timestamp (Items farPastQueue ! nat 0)) \<le> sint (20 :: int64)"
  using farPastQueue_ingest farPast_start by (simp add: farPastQueue_Items)

text \<open>
  C10, as amended. Take a history built by the caller under its contract (the delivered
  timestamps do not decrease), whose delta-snapshot values are all nonnegative and in
  which no two timestamps are further apart than the greatest \<open>int64\<close>. Then
  \<open>CalculateRate\<close> returns a nonnegative rate. On every history, when both indices are
  found and the end index is before the start index, the summation range is empty and the
  rate returned is 0.
\<close>

theorem CalculateRate_nonnegative:
  "(q = ingest \<lparr>elems = [], capacity = cap\<rparr> deliveries \<and>
    sorted (map (\<lambda>d. sint (fst d)) deliveries) \<and>
    (\<forall>a\<in>set (Items q). \<forall>b\<in>set (Items q). sint (timestamp a) - sint (timestamp b) \<le> 9223372036854775807) \<and>
    (\<forall>c\<in>set (Items q). \<forall>(pod, partitionCount)\<in>set (PodDeltaCountSnapshot c).
        \<forall>(part, d)\<in>set partitionCount. 0 \<le> d)
    \<longrightarrow> (\<exists>rate. CalculateRate now q lookbackSeconds partitionName vertexName = Inr rate \<and> 0 \<le> rate)) \<and>
   (findStartIndex now lookbackSeconds (Items q) = Inr startIndex \<and>
    findEndIndex (Items q) = Inr endIndex \<and>
    startIndex \<noteq> IndexNotFound \<and> endIndex \<noteq> IndexNotFound \<and> endIndex < startIndex
    \<longrightarrow> CalculateRate now q lookbackSeconds partitionName vertexName = Inr 0)"
proof -
  have before: "CalculateRate now q lookbackSeconds partitionName vertexName = Inr 0"
    if s: "findStartIndex now lookbackSeconds (Items q) = Inr startIndex"
      and e: "findEndIndex (Items q) = Inr endIndex"
      and n: "startIndex \<noteq> IndexNotFound" "endIndex \<noteq> IndexNotFound" and lt: "endIndex < startIndex"
  proof -
    from s n(1) findStartIndex_range [of now lookbackSeconds "Items q" startIndex]
    have "1 < length (Items q)" by auto
    from CalculateRate_found_spec [OF this s e n, of partitionName vertexName] lt
    show ?thesis by simp
  qed
  have nonneg: "\<exists>rate. CalculateRate now q lookbackSeconds partitionName vertexName = Inr rate \<and> 0 \<le> rate"
    if built: "q = ingest \<lparr>elems = [], capacity = cap\<rparr> deliveries"
      and contract: "sorted (map (\<lambda>d. sint (fst d)) deliveries)"
      and range: "\<forall>a\<in>set (Items q). \<forall>b\<in>set (Items q). sint (timestamp a) - sint (timestamp b) \<le> 9223372036854775807"
      and deltas: "\<forall>c\<in>set (Items q). \<forall>(pod, partitionCount)\<in>set (PodDeltaCountSnapshot c).
        \<forall>(part, d)\<in>set partitionCount. 0 \<le> d"
  proof -
    from ingest_sorted [OF contract, of cap] built
    have sorted: "sorted (map (\<lambda>b. sint (timestamp b)) (Items q))" by simp
    obtain s where s: "findStartIndex now lookbackSeconds (Items q) = Inr s"
      using findStartIndex_total by blast
    obtain e where e: "findEndIndex (Items q) = Inr e"
      using findEndIndex_spec [of "Items q"] by blast
    show ?thesis
    proof (cases "1 < length (Items q) \<and> s \<noteq> IndexNotFound \<and> e \<noteq> IndexNotFound")
      case True
      then have l: "1 < length (Items q)" and ns: "s \<noteq> IndexNotFound" and ne: "e \<noteq> IndexNotFound"
        by simp_all
      note rate = CalculateRate_found_spec [OF l s e ns ne, of partitionName vertexName]
      from s ns findStartIndex_range [of now lookbackSeconds "Items q" s]
      have rs: "0 \<le> s" "s < int (length (Items q))" by auto
      from e ne findEndIndex_range [of "Items q" e]
      have re: "0 \<le> e" "e < int (length (Items q))" by auto
      let ?sum = "\<Sum>j = s..<e.
            if IsWindowClosed (Items q ! nat (j + 1)) then calculatePartitionDelta (Items q ! nat (j + 1)) partitionName else 0"
      let ?te = "timestamp (Items q ! nat e)" and ?ts = "timestamp (Items q ! nat s)"
      have sum0: "0 \<le> ?sum"
      proof (rule sum_nonneg)
        fix j assume "j \<in> {s..<e}"
        with rs re have "nat (j + 1) < length (Items q)" by auto
        then have "Items q ! nat (j + 1) \<in> set (Items q)" by simp
        with deltas have "0 \<le> calculatePartitionDelta (Items q ! nat (j + 1)) partitionName"
          by (intro calculatePartitionDelta_nonneg) blast
        then show "0 \<le> (if IsWindowClosed (Items q ! nat (j + 1)) then calculatePartitionDelta (Items q ! nat (j + 1)) partitionName else 0)"
          by simp
      qed
      show ?thesis
      proof (cases "s \<le> e")
        case le: True
        with rs re have "nat s \<le> nat e" "nat e < length (map (\<lambda>b. sint (timestamp b)) (Items q))" by simp_all
        with sorted have "map (\<lambda>b. sint (timestamp b)) (Items q) ! nat s \<le> map (\<lambda>b. sint (timestamp b)) (Items q) ! nat e"
          by (rule sorted_nth_mono)
        with rs re have order: "sint ?ts \<le> sint ?te" by simp
        from rs re have "Items q ! nat e \<in> set (Items q)" "Items q ! nat s \<in> set (Items q)" by simp_all
        with range have "sint ?te - sint ?ts \<le> 9223372036854775807" by blast
        moreover from order have "- 9223372036854775808 \<le> sint ?te - sint ?ts" by simp
        ultimately have "sint (?te - ?ts) = sint ?te - sint ?ts" by (intro sint_diff_exact)
        with order have "0 \<le> sint (?te - ?ts)" by linarith
        then have "0 \<le> real_of_int (sint (?te - ?ts))" by (simp only: of_int_0_le_iff)
        with sum0 have "0 \<le> ?sum / real_of_int (sint (?te - ?ts))"
          by (rule divide_nonneg_nonneg)
        with rate show ?thesis by (cases "?te = ?ts") simp_all
      next
        case False
        then have "?sum = 0" by simp
        with rate show ?thesis by (cases "?te = ?ts") simp_all
      qed
    next
      case False
      then consider "length (Items q) \<le> 1" | "s = IndexNotFound \<or> e = IndexNotFound" by linarith
      then show ?thesis
      proof cases
        case 1
        then show ?thesis by (simp add: CalculateRate_def)
      next
        case 2
        with s e show ?thesis by (simp add: CalculateRate_not_found)
      qed
    qed
  qed
  from before nonneg show ?thesis by blast
qed

theorem CalculateRate_nonnegative_witness:
  "sorted (map (\<lambda>d. sint (fst d))
     [(100 :: int64, exampleReport 5), (110, exampleReport 15), (120, exampleReport 30)])
   \<and> (\<exists>rate. CalculateRate 120 exampleQueue 20 ''p1'' ''v'' = Inr rate \<and> 0 \<le> rate)
   \<and> findStartIndex 120 20 (Items openTail) = Inr 1 \<and> findEndIndex (Items openTail) = Inr 0
   \<and> CalculateRate 120 openTail 20 ''p1'' ''v'' = Inr 0"
proof -
  have so: "sorted (map (\<lambda>d. sint (fst d))
     [(100 :: int64, exampleReport 5), (110, exampleReport 15), (120, exampleReport 30)])" by simp
  have r: "\<forall>a\<in>set (Items exampleQueue). \<forall>b\<in>set (Items exampleQueue).
      sint (timestamp a) - sint (timestamp b) \<le> 9223372036854775807"
    by (simp add: exampleQueue_Items)
  have d: "\<forall>c\<in>set (Items exampleQueue). \<forall>(pod, partitionCount)\<in>set (PodDeltaCountSnapshot c).
        \<forall>(part, d)\<in>set partitionCount. 0 \<le> d"
    by (simp add: exampleQueue_Items PodDeltaCountSnapshot_def)
  have s: "findStartIndex 120 20 (Items openTail) = Inr 1"
    by (simp add: openTail_Items findStartIndex_def startLoop.simps index_def IsWindowClosed_def)
  have e: "findEndIndex (Items openTail) = Inr 0"
    by (simp add: openTail_Items findEndIndex_def endLoop.simps index_def IsWindowClosed_def)
  from CalculateRate_nonnegative [of exampleQueue 100
      "[(100, exampleReport 5), (110, exampleReport 15), (120, exampleReport 30)]" 120 20 "''p1''" "''v''"]
    exampleQueue_ingest so r d
  have 1: "\<exists>rate. CalculateRate 120 exampleQueue 20 ''p1'' ''v'' = Inr rate \<and> 0 \<le> rate" by blast
  from CalculateRate_nonnegative [of openTail _ _ 120 20 "''p1''" "''v''" 1 0] s e
  have 2: "CalculateRate 120 openTail 20 ''p1'' ''v'' = Inr 0" by (simp add: IndexNotFound_def)
  from so 1 s e 2 show ?thesis by blast
qed

text \<open>
  C10 as stated fails: on a history built by the caller under its contract, with
  nonnegative deltas, whose first timestamp is near the least \<open>int64\<close>, the difference of
  the timestamps at the two indices wraps around to a negative number and the rate is
  negative.
\<close>

theorem CalculateRate_negative_on_wrap:
  "farPastQueue = ingest \<lparr>elems = [], capacity = 100\<rparr>
     [(- 9223372036854775800, exampleReport 5), (110, exampleReport 15), (120, exampleReport 30)]
   \<and> sorted (map (\<lambda>d. sint (fst d))
        [(- 9223372036854775800 :: int64, exampleReport 5), (110, exampleReport 15), (120, exampleReport 30)])
   \<and> CalculateRate 120 farPastQueue 20 ''p1'' ''v'' = Inr (10 / - 9223372036854775706)
   \<and> \<not> ((\<forall>c\<in>set (Items farPastQueue). \<forall>(pod, partitionCount)\<in>set (PodDeltaCountSnapshot c).
            \<forall>(part, d)\<in>set partitionCount. 0 \<le> d)
          \<longrightarrow> (\<exists>rate. CalculateRate 120 farPastQueue 20 ''p1'' ''v'' = Inr rate \<and> 0 \<le> rate))"
proof -
  have d: "\<forall>c\<in>set (Items farPastQueue). \<forall>(pod, partitionCount)\<in>set (PodDeltaCountSnapshot c).
        \<forall>(part, d)\<in>set partitionCount. 0 \<le> d"
    by (simp add: farPastQueue_Items PodDeltaCountSnapshot_def)
  have so: "sorted (map (\<lambda>d. sint (fst d))
        [(- 9223372036854775800 :: int64, exampleReport 5), (110, exampleReport 15), (120, exampleReport 30)])"
    by simp
  have "\<not> (\<exists>rate. CalculateRate 120 farPastQueue 20 ''p1'' ''v'' = Inr rate \<and> 0 \<le> rate)"
    by (simp add: farPast_rate)
  with d so farPast_rate farPastQueue_ingest show ?thesis by blast
qed

text \<open>
  C1. \<open>UpdateCount\<close>, case by case. When a bucket has the given timestamp, \<open>Update\<close> is
  called on the first such bucket and nothing else changes: no window is closed and
  nothing is appended. Otherwise the new bucket, updated with the report, is appended:
  directly when the history is empty; after \<open>CloseWindow\<close> with nil on the only bucket
  when there is one; after \<open>CloseWindow\<close> on the most recent bucket, with the
  second-most-recent one as the previous bucket, when there are two or more.
\<close>

theorem UpdateCount_cases:
  "(Items q = before @ b # after \<and> (\<forall>i\<in>set before. timestamp i \<noteq> time) \<and> timestamp b = time
      \<longrightarrow> UpdateCount q time partitionReadCounts = q\<lparr>elems := before @ Update b partitionReadCounts # after\<rparr>) \<and>
   ((\<forall>i\<in>set (Items q). timestamp i \<noteq> time) \<and> Items q = []
      \<longrightarrow> UpdateCount q time partitionReadCounts =
            Append q (Update (NewTimestampedCounts time) partitionReadCounts)) \<and>
   ((\<forall>i\<in>set (Items q). timestamp i \<noteq> time) \<and> Items q = [only]
      \<longrightarrow> UpdateCount q time partitionReadCounts =
            Append (q\<lparr>elems := [CloseWindow only None]\<rparr>)
              (Update (NewTimestampedCounts time) partitionReadCounts)) \<and>
   ((\<forall>i\<in>set (Items q). timestamp i \<noteq> time) \<and> Items q = older @ [previous, recent]
      \<longrightarrow> UpdateCount q time partitionReadCounts =
            Append (q\<lparr>elems := older @ [previous, CloseWindow recent (Some previous)]\<rparr>)
              (Update (NewTimestampedCounts time) partitionReadCounts))"
proof (intro conjI impI)
  assume "Items q = before @ b # after \<and> (\<forall>i\<in>set before. timestamp i \<noteq> time) \<and> timestamp b = time"
  then show "UpdateCount q time partitionReadCounts = q\<lparr>elems := before @ Update b partitionReadCounts # after\<rparr>"
    by (simp add: UpdateCount_match)
next
  assume a: "(\<forall>i\<in>set (Items q). timestamp i \<noteq> time) \<and> Items q = []"
  then have "closeMostRecent (Items q) = elems q" by (simp add: closeMostRecent_def Items_def)
  with a show "UpdateCount q time partitionReadCounts =
      Append q (Update (NewTimestampedCounts time) partitionReadCounts)"
    by (simp add: UpdateCount_no_match)
next
  assume a: "(\<forall>i\<in>set (Items q). timestamp i \<noteq> time) \<and> Items q = [only]"
  then have "closeMostRecent (Items q) = [CloseWindow only None]" by (simp add: closeMostRecent_def)
  with a show "UpdateCount q time partitionReadCounts =
      Append (q\<lparr>elems := [CloseWindow only None]\<rparr>) (Update (NewTimestampedCounts time) partitionReadCounts)"
    by (simp add: UpdateCount_no_match)
next
  assume a: "(\<forall>i\<in>set (Items q). timestamp i \<noteq> time) \<and> Items q = older @ [previous, recent]"
  then have "closeMostRecent (Items q) = older @ [previous, CloseWindow recent (Some previous)]"
    by (simp add: closeMostRecent_two)
  with a show "UpdateCount q time partitionReadCounts =
      Append (q\<lparr>elems := older @ [previous, CloseWindow recent (Some previous)]\<rparr>)
        (Update (NewTimestampedCounts time) partitionReadCounts)"
    by (simp add: UpdateCount_no_match)
qed

theorem UpdateCount_cases_witness:
  "UpdateCount twoBuckets 110 (exampleReport 20) =
     twoBuckets\<lparr>elems := [Items twoBuckets ! 0] @ Update (Items twoBuckets ! 1) (exampleReport 20) # []\<rparr>
   \<and> UpdateCount \<lparr>elems = [], capacity = 100\<rparr> 100 (exampleReport 5) =
       Append \<lparr>elems = [], capacity = 100\<rparr> (Update (NewTimestampedCounts 100) (exampleReport 5))
   \<and> UpdateCount \<lparr>elems = [NewTimestampedCounts 100], capacity = 100\<rparr> 110 (exampleReport 15) =
       Append (\<lparr>elems = [NewTimestampedCounts 100], capacity = 100\<rparr>\<lparr>elems := [CloseWindow (NewTimestampedCounts 100) None]\<rparr>)
         (Update (NewTimestampedCounts 110) (exampleReport 15))
   \<and> UpdateCount twoBuckets 120 (exampleReport 30) =
       Append (twoBuckets\<lparr>elems := [] @ [Items twoBuckets ! 0, CloseWindow (Items twoBuckets ! 1) (Some (Items twoBuckets ! 0))]\<rparr>)
         (Update (NewTimestampedCounts 120) (exampleReport 30))"
proof -
  have 1: "UpdateCount twoBuckets 110 (exampleReport 20) =
     twoBuckets\<lparr>elems := [Items twoBuckets ! 0] @ Update (Items twoBuckets ! 1) (exampleReport 20) # []\<rparr>"
    using UpdateCount_cases [where q = twoBuckets and before = "[Items twoBuckets ! 0]"
        and b = "Items twoBuckets ! 1" and after = "[]" and time = 110
        and partitionReadCounts = "exampleReport 20"]
    by (simp add: twoBuckets_Items)
  have 2: "UpdateCount \<lparr>elems = [], capacity = 100\<rparr> 100 (exampleReport 5) =
       Append \<lparr>elems = [], capacity = 100\<rparr> (Update (NewTimestampedCounts 100) (exampleReport 5))"
    using UpdateCount_cases [where q = "\<lparr>elems = [], capacity = 100\<rparr>" and time = 100
        and partitionReadCounts = "exampleReport 5"]
    by (simp add: Items_def)
  have 3: "UpdateCount \<lparr>elems = [NewTimestampedCounts 100], capacity = 100\<rparr> 110 (exampleReport 15) =
       Append (\<lparr>elems = [NewTimestampedCounts 100], capacity = 100\<rparr>\<lparr>elems := [CloseWindow (NewTimestampedCounts 100) None]\<rparr>)
         (Update (NewTimestampedCounts 110) (exampleReport 15))"
    using UpdateCount_cases [where q = "\<lparr>elems = [NewTimestampedCounts 100], capacity = 100\<rparr>" and time = 110
        and only = "NewTimestampedCounts 100" and partitionReadCounts = "exampleReport 15"]
    by (simp add: Items_def NewTimestampedCounts_def)
  have 4: "UpdateCount twoBuckets 120 (exampleReport 30) =
       Append (twoBuckets\<lparr>elems := [] @ [Items twoBuckets ! 0, CloseWindow (Items twoBuckets ! 1) (Some (Items twoBuckets ! 0))]\<rparr>)
         (Update (NewTimestampedCounts 120) (exampleReport 30))"
    using UpdateCount_cases [where q = twoBuckets and older = "[]" and previous = "Items twoBuckets ! 0"
        and recent = "Items twoBuckets ! 1" and time = 120 and partitionReadCounts = "exampleReport 30"]
    by (simp add: twoBuckets_Items)
  from 1 2 3 4 show ?thesis by blast
qed

text \<open>
  C9. The frame of \<open>UpdateCount\<close>. When a bucket has the given timestamp, the history
  keeps its length, and the closed state and the delta snapshot of every bucket. When none
  has, the result is the \<open>Append\<close> of one new, open bucket to a history of the same
  length in which every bucket before the most recent one is unchanged.
\<close>

theorem UpdateCount_frame:
  "((\<exists>i\<in>set (Items q). timestamp i = time)
      \<longrightarrow> length (Items (UpdateCount q time partitionReadCounts)) = length (Items q) \<and>
          map IsWindowClosed (Items (UpdateCount q time partitionReadCounts)) = map IsWindowClosed (Items q) \<and>
          map PodDeltaCountSnapshot (Items (UpdateCount q time partitionReadCounts)) =
            map PodDeltaCountSnapshot (Items q)) \<and>
   ((\<forall>i\<in>set (Items q). timestamp i \<noteq> time)
      \<longrightarrow> (\<exists>items'. length items' = length (Items q) \<and>
            (\<forall>k. k + 1 < length (Items q) \<longrightarrow> items' ! k = Items q ! k) \<and>
            UpdateCount q time partitionReadCounts =
              Append (q\<lparr>elems := items'\<rparr>) (Update (NewTimestampedCounts time) partitionReadCounts) \<and>
            \<not> IsWindowClosed (Update (NewTimestampedCounts time) partitionReadCounts)))"
proof -
  have matched: "length (Items (UpdateCount q time partitionReadCounts)) = length (Items q) \<and>
          map IsWindowClosed (Items (UpdateCount q time partitionReadCounts)) = map IsWindowClosed (Items q) \<and>
          map PodDeltaCountSnapshot (Items (UpdateCount q time partitionReadCounts)) =
            map PodDeltaCountSnapshot (Items q)"
    if "\<exists>i\<in>set (Items q). timestamp i = time"
  proof -
    from match_split [OF that] obtain before b after where
      sp: "Items q = before @ b # after" "\<forall>i\<in>set before. timestamp i \<noteq> time" "timestamp b = time"
      by blast
    then have "Items (UpdateCount q time partitionReadCounts) = before @ Update b partitionReadCounts # after"
      by (simp add: UpdateCount_match Items_def)
    with sp(1) show ?thesis by (simp add: Update_frame)
  qed
  have fresh: "\<not> IsWindowClosed (Update (NewTimestampedCounts time) partitionReadCounts)"
    by (simp add: Update_frame) (simp add: IsWindowClosed_def NewTimestampedCounts_def)
  have appended: "\<exists>items'. length items' = length (Items q) \<and>
            (\<forall>k. k + 1 < length (Items q) \<longrightarrow> items' ! k = Items q ! k) \<and>
            UpdateCount q time partitionReadCounts =
              Append (q\<lparr>elems := items'\<rparr>) (Update (NewTimestampedCounts time) partitionReadCounts) \<and>
            \<not> IsWindowClosed (Update (NewTimestampedCounts time) partitionReadCounts)"
    if "\<forall>i\<in>set (Items q). timestamp i \<noteq> time"
    using that fresh
    by (intro exI [of _ "closeMostRecent (Items q)"])
       (simp add: closeMostRecent_length closeMostRecent_earlier UpdateCount_no_match)
  from matched appended show ?thesis by blast
qed

theorem UpdateCount_frame_witness:
  "length (Items (UpdateCount twoBuckets 110 (exampleReport 20))) = length (Items twoBuckets)
   \<and> map IsWindowClosed (Items (UpdateCount twoBuckets 110 (exampleReport 20))) = map IsWindowClosed (Items twoBuckets)
   \<and> (\<exists>items'. length items' = length (Items twoBuckets) \<and> items' ! 0 = Items twoBuckets ! 0 \<and>
         UpdateCount twoBuckets 120 (exampleReport 30) =
           Append (twoBuckets\<lparr>elems := items'\<rparr>) (Update (NewTimestampedCounts 120) (exampleReport 30)))"
proof -
  have m: "\<exists>i\<in>set (Items twoBuckets). timestamp i = 110" by (simp add: twoBuckets_Items)
  have n: "\<forall>i\<in>set (Items twoBuckets). timestamp i \<noteq> 120" by (simp add: twoBuckets_Items)
  have l: "(0::nat) + 1 < length (Items twoBuckets)" by (simp add: twoBuckets_Items)
  from UpdateCount_frame [of twoBuckets 110 "exampleReport 20"] m
  have 1: "length (Items (UpdateCount twoBuckets 110 (exampleReport 20))) = length (Items twoBuckets)
   \<and> map IsWindowClosed (Items (UpdateCount twoBuckets 110 (exampleReport 20))) = map IsWindowClosed (Items twoBuckets)"
    by blast
  from UpdateCount_frame [of twoBuckets 120 "exampleReport 30"] n l
  have 2: "\<exists>items'. length items' = length (Items twoBuckets) \<and> items' ! 0 = Items twoBuckets ! 0 \<and>
         UpdateCount twoBuckets 120 (exampleReport 30) =
           Append (twoBuckets\<lparr>elems := items'\<rparr>) (Update (NewTimestampedCounts 120) (exampleReport 30))"
    by blast
  from 1 2 show ?thesis by blast
qed

text \<open>
  C4, as amended. In the example (the counts 5, 15, 30 of \<open>p1\<close> at 100, 110, 120) the
  bucket at 110 is closed with the delta 10 after the third report, and the rate at 120
  with a lookback of 20 is 1. More generally, one pod reports the cumulative counts
  \<open>c0 < c1 < c2\<close> of a partition at the evenly spaced timestamps \<open>t0\<close>, \<open>t1 = t0 + d\<close> and
  \<open>t2 = t1 + d\<close>, into an empty history of capacity 4 or more, and a later report at
  another timestamp has closed the bucket at \<open>t2\<close>. Then \<open>CalculateRate\<close> at \<open>t2\<close>, with a
  lookback of \<open>2 * d\<close> or more, returns \<open>(c2 - c0) / (t2 - t0)\<close>.
\<close>

theorem closed_buckets_rate:
  "(timestamp (Items exampleQueue ! 1) = 110 \<and> IsWindowClosed (Items exampleQueue ! 1) \<and>
    calculatePartitionDelta (Items exampleQueue ! 1) ''p1'' = 10 \<and>
    CalculateRate 120 exampleQueue 20 ''p1'' ''v'' = Inr 1) \<and>
   (c0 < c1 \<and> c1 < c2 \<and> t1 = t0 + d \<and> t2 = t1 + d \<and> 0 < sint d \<and>
    2 * sint d \<le> sint lookbackSeconds \<and> t3 \<noteq> t0 \<and> t3 \<noteq> t1 \<and> t3 \<noteq> t2 \<and> 4 \<le> cap \<and>
    q = UpdateCount (UpdateCount (UpdateCount (UpdateCount \<lparr>elems = [], capacity = cap\<rparr>
            t0 \<lparr>podName = pod, readCounts = [(partitionName, c0)]\<rparr>)
            t1 \<lparr>podName = pod, readCounts = [(partitionName, c1)]\<rparr>)
            t2 \<lparr>podName = pod, readCounts = [(partitionName, c2)]\<rparr>)
            t3 later
    \<longrightarrow> IsWindowClosed (Items q ! 2) \<and>
        sint (t2 - t0) = 2 * sint d \<and>
        CalculateRate t2 q lookbackSeconds partitionName vertexName =
          Inr ((c2 - c0) / real_of_int (sint (t2 - t0))))"
proof -
  have example: "timestamp (Items exampleQueue ! 1) = 110 \<and> IsWindowClosed (Items exampleQueue ! 1) \<and>
    calculatePartitionDelta (Items exampleQueue ! 1) ''p1'' = 10 \<and>
    CalculateRate 120 exampleQueue 20 ''p1'' ''v'' = Inr 1"
    by (simp add: exampleQueue_rate)
       (simp add: exampleQueue_Items IsWindowClosed_def calculatePartitionDelta_sum_list
          PodDeltaCountSnapshot_def lookup_def)
  have general: "IsWindowClosed (Items q ! 2) \<and>
        sint (t2 - t0) = 2 * sint d \<and>
        CalculateRate t2 q lookbackSeconds partitionName vertexName =
          Inr ((c2 - c0) / real_of_int (sint (t2 - t0)))"
    if c: "c0 < c1" "c1 < c2" and t: "t1 = t0 + d" "t2 = t1 + d" and d: "0 < sint d"
      and lb: "2 * sint d \<le> sint lookbackSeconds"
      and t3: "t3 \<noteq> t0" "t3 \<noteq> t1" "t3 \<noteq> t2" and cap: "4 \<le> cap"
      and q: "q = UpdateCount (UpdateCount (UpdateCount (UpdateCount \<lparr>elems = [], capacity = cap\<rparr>
            t0 \<lparr>podName = pod, readCounts = [(partitionName, c0)]\<rparr>)
            t1 \<lparr>podName = pod, readCounts = [(partitionName, c1)]\<rparr>)
            t2 \<lparr>podName = pod, readCounts = [(partitionName, c2)]\<rparr>)
            t3 later"
  proof -
    from lb sint_int64_range(2) [of lookbackSeconds]
    have fit: "2 * sint d \<le> 9223372036854775807" by linarith
    have dd: "sint (d + d) = 2 * sint d" using d fit by (rule sint_double)
    from d have d0: "d \<noteq> 0" by auto
    from dd d have dd0: "d + d \<noteq> 0" by auto
    have diff: "t2 - t0 = d + d" "t2 - t1 = d" "t2 - t2 = 0" by (simp_all add: t)
    from d0 dd0 have distinct: "t1 \<noteq> t0" "t2 \<noteq> t0" "t2 \<noteq> t1" by (simp_all add: t add.assoc)
    have items: "Items q =
      [\<lparr>timestamp = t0, podPartitionCount = [(pod, [(partitionName, c0)])], windowClosed = True,
         deltaSnapshot = [(pod, [(partitionName, c0)])]\<rparr>,
       \<lparr>timestamp = t1, podPartitionCount = [(pod, [(partitionName, c1)])], windowClosed = True,
         deltaSnapshot = [(pod, [(partitionName, c1 - c0)])]\<rparr>,
       \<lparr>timestamp = t2, podPartitionCount = [(pod, [(partitionName, c2)])], windowClosed = True,
         deltaSnapshot = [(pod, [(partitionName, c2 - c1)])]\<rparr>,
       Update (NewTimestampedCounts t3) later]"
      unfolding q using distinct t3 cap c by (intro four_reports_Items) simp_all
    have last_open: "\<not> IsWindowClosed (Update (NewTimestampedCounts t3) later)"
      by (simp add: Update_frame) (simp add: IsWindowClosed_def NewTimestampedCounts_def)
    have within: "sint (t2 - t2) \<le> sint lookbackSeconds" "sint (t2 - t1) \<le> sint lookbackSeconds"
      "sint (t2 - t0) \<le> sint lookbackSeconds"
      unfolding diff using d lb dd by simp_all
    have s: "findStartIndex t2 lookbackSeconds (Items q) = Inr 0"
      using within
      by (simp add: items findStartIndex_def startLoop.simps index_def IsWindowClosed_def)
    have e: "findEndIndex (Items q) = Inr 2"
      using last_open
      by (simp add: items findEndIndex_def endLoop.simps index_def) (simp add: IsWindowClosed_def)
    have l: "1 < length (Items q)" by (simp add: items)
    have n: "(0::int) \<noteq> IndexNotFound" "(2::int) \<noteq> IndexNotFound" by (simp_all add: IndexNotFound_def)
    have ne: "timestamp (Items q ! nat 2) \<noteq> timestamp (Items q ! nat 0)"
      using distinct by (simp add: items)
    have sum: "(\<Sum>j = 0..<2::int.
            if IsWindowClosed (Items q ! nat (j + 1)) then calculatePartitionDelta (Items q ! nat (j + 1)) partitionName else 0)
        = c2 - c0"
      by (simp add: int_interval_0_2 items IsWindowClosed_def calculatePartitionDelta_sum_list
          PodDeltaCountSnapshot_def lookup_def)
    have ts: "timestamp (Items q ! nat 2) = t2" "timestamp (Items q ! nat 0) = t0"
      by (simp_all add: items)
    have "CalculateRate t2 q lookbackSeconds partitionName vertexName =
          Inr ((\<Sum>j = 0..<2::int.
            if IsWindowClosed (Items q ! nat (j + 1)) then calculatePartitionDelta (Items q ! nat (j + 1)) partitionName else 0)
            / real_of_int (sint (timestamp (Items q ! nat 2) - timestamp (Items q ! nat 0))))"
      using CalculateRate_found_spec [OF l s e n, of partitionName vertexName] ne by (simp only: if_False)
    then have rate: "CalculateRate t2 q lookbackSeconds partitionName vertexName =
          Inr ((c2 - c0) / real_of_int (sint (t2 - t0)))"
      unfolding sum ts .
    have closed: "IsWindowClosed (Items q ! 2)" by (simp add: items IsWindowClosed_def)
    have double: "sint (t2 - t0) = 2 * sint d" unfolding diff(1) by (rule dd)
    from closed double rate show ?thesis by (intro conjI)
  qed
  from example general show ?thesis by blast
qed

theorem closed_buckets_rate_witness:
  "CalculateRate 120
     (UpdateCount (UpdateCount (UpdateCount (UpdateCount \<lparr>elems = [], capacity = 100\<rparr>
        100 \<lparr>podName = ''pod-0'', readCounts = [(''p1'', 5)]\<rparr>)
        (100 + 10) \<lparr>podName = ''pod-0'', readCounts = [(''p1'', 15)]\<rparr>)
        (100 + 10 + 10) \<lparr>podName = ''pod-0'', readCounts = [(''p1'', 30)]\<rparr>)
        130 (exampleReport 50))
     20 ''p1'' ''v'' = Inr ((30 - 5) / real_of_int (sint (120 - 100 :: int64)))
   \<and> CalculateRate 120 exampleQueue 20 ''p1'' ''v'' = Inr 1"
proof -
  have h: "(5::real) < 15 \<and> (15::real) < 30 \<and> (100 + 10 :: int64) = 100 + 10 \<and>
      (100 + 10 + 10 :: int64) = (100 + 10) + 10 \<and> 0 < sint (10 :: int64) \<and>
      2 * sint (10 :: int64) \<le> sint (20 :: int64) \<and> (130 :: int64) \<noteq> 100 \<and> (130 :: int64) \<noteq> 100 + 10 \<and>
      (130 :: int64) \<noteq> 100 + 10 + 10 \<and> (4::nat) \<le> 100"
    by simp
  from closed_buckets_rate [of 5 15 30 "100 + 10" 100 10 "100 + 10 + 10" 20 130 100 _ "''pod-0''" "''p1''"
      "exampleReport 50" "''v''"] h
  show ?thesis by simp
qed

text \<open>
  C4 as stated fails in its general part: after the third report of the example the
  bucket at 120 is still open, and the rate is 1, not \<open>(c2 - c0) / (t2 - t0) = 25 / 20\<close>.
\<close>

theorem three_reports_rate_not_slope:
  "CalculateRate 120 exampleQueue 20 ''p1'' ''v'' = Inr 1
   \<and> CalculateRate 120 exampleQueue 20 ''p1'' ''v'' \<noteq> Inr ((30 - 5) / real_of_int (sint (120 - 100 :: int64)))"
  by (simp add: exampleQueue_rate)

end
